theory Spec2Isabelle
  imports Main "HOL-Library.Word"
begin

unbundle bit_operations_syntax

section \<open>The msgpack zone (include/msgpack/detail/cpp11_zone.hpp)\<close>

text \<open>
  A shallow embedding of class \<open>msgpack::zone\<close>. The data model is LP64: \<open>size_t\<close> and
  pointers are 64-bit words (unsigned arithmetic wraps), \<open>sizeof(int) = 4\<close>, a pointer takes
  8 bytes. \<open>nullptr\<close> is the address 0.

  The system allocator is not part of the program: every operation that calls \<open>::malloc\<close> or
  \<open>::realloc\<close> takes the address that call returns as an argument (0 when the allocator
  cannot supply the block). Likewise the outcome of a constructor (returns or throws) is an
  argument of the typed allocation. What an operation does to the outside world (allocator
  calls, finalizer invocations, constructor calls) is returned as a list of events, in
  program order.
\<close>

subsection \<open>Constants and data\<close>

type_synonym size_t = "64 word"
type_synonym ptr = "64 word"

definition nullptr :: ptr where
  "nullptr = 0"

text \<open>\<open>#define MSGPACK_ZONE_ALIGN sizeof(int)\<close>\<close>
definition MSGPACK_ZONE_ALIGN :: size_t where
  "MSGPACK_ZONE_ALIGN = 4"

text \<open>\<open>struct finalizer\<close> holds a function pointer \<open>m_func\<close> and a \<open>void *\<close> \<open>m_data\<close>: 16 bytes.\<close>
definition sizeof_finalizer :: nat where
  "sizeof_finalizer = 16"

text \<open>\<open>struct chunk { chunk* m_next; }\<close>: one pointer.\<close>
definition sizeof_chunk :: size_t where
  "sizeof_chunk = 8"

text \<open>\<open>class zone\<close>: \<open>m_chunk_size\<close> (8), \<open>m_chunk_list\<close> (24), \<open>m_finalizer_array\<close> (24).\<close>
definition sizeof_zone :: size_t where
  "sizeof_zone = 56"

text \<open>
  A function pointer stored in a finalizer: an instance \<open>&zone::object_destructor<T>\<close> (the
  type \<open>T\<close> named by a number), or a function supplied by the caller of \<open>push_finalizer\<close>.
\<close>
datatype fptr = object_destructor nat | user_func nat

record finalizer =
  m_func :: fptr
  m_data :: ptr

text \<open>A type \<open>T\<close> given to a template: its name and \<open>sizeof(T)\<close>.\<close>
record cxx_type =
  type_id :: nat
  sizeof :: size_t

datatype error = bad_alloc | ctor_exception | std_terminate

datatype event =
    Malloc size_t ptr         \<comment> \<open>\<open>::malloc(size)\<close> returned the address\<close>
  | Realloc ptr size_t ptr    \<comment> \<open>\<open>::realloc(old, size)\<close> returned the address\<close>
  | Free ptr                  \<comment> \<open>\<open>::free(p)\<close>\<close>
  | Invoke fptr ptr           \<comment> \<open>\<open>m_func(m_data)\<close>: a finalizer was called\<close>
  | InvokeGarbage             \<comment> \<open>a finalizer slot that was never written was called\<close>
  | Construct nat ptr         \<comment> \<open>\<open>new (x) T(args...)\<close>: the constructor of \<open>T\<close> returned\<close>
  | Delete nat ptr            \<comment> \<open>a \<open>unique_ptr<T>\<close> that still owned the object deleted it\<close>

subsection \<open>finalizer_array\<close>

text \<open>
  \<open>m_array\<close> is the address of the storage block; \<open>slots\<close> is what the block holds, one
  element per finalizer it has room for, \<open>None\<close> where nothing was written yet. \<open>m_tail\<close> and
  \<open>m_end\<close> are kept as element offsets from \<open>m_array\<close>, as natural numbers (a registry of
  \<open>2 ^ 59\<close> entries, where the byte count of \<open>push_expand\<close> would wrap, is out of reach).
\<close>
record finalizer_array =
  m_tail :: nat
  m_end :: nat
  m_array :: ptr
  slots :: "finalizer option list"

text \<open>\<open>finalizer_array():m_tail(nullptr), m_end(nullptr), m_array(nullptr) {}\<close>\<close>
definition finalizer_array_init :: finalizer_array where
  "finalizer_array_init = \<lparr>m_tail = 0, m_end = 0, m_array = nullptr, slots = []\<rparr>"

text \<open>
  The call of the entry \<open>fin[-1]\<close>, for the slot with index \<open>i\<close>: \<open>operator()\<close> is
  \<open>m_func(m_data)\<close>. Outside the block, and in a slot never written, the read is garbage.
\<close>
definition invoke_slot :: "finalizer option list \<Rightarrow> nat \<Rightarrow> event" where
  "invoke_slot arr i =
     (if i < length arr
      then (case arr ! i of Some f \<Rightarrow> Invoke (m_func f) (m_data f) | None \<Rightarrow> InvokeGarbage)
      else InvokeGarbage)"

text \<open>
  The loop of \<open>call\<close>: from \<open>fin = m_tail\<close>, while \<open>fin != m_array\<close>, call the entry before
  \<open>fin\<close> and decrement \<open>fin\<close>; \<open>fin\<close> is an offset here.
\<close>
fun call_loop :: "finalizer option list \<Rightarrow> nat \<Rightarrow> event list" where
  "call_loop arr 0 = []"
| "call_loop arr (Suc fin) = invoke_slot arr fin # call_loop arr fin"

definition call :: "finalizer_array \<Rightarrow> event list" where
  "call fa = call_loop (slots fa) (m_tail fa)"

text \<open>\<open>~finalizer_array() { call(); ::free(m_array); }\<close>\<close>
definition finalizer_array_dtor :: "finalizer_array \<Rightarrow> event list" where
  "finalizer_array_dtor fa = call fa @ [Free (m_array fa)]"

text \<open>\<open>void clear() { call(); m_tail = m_array; }\<close>\<close>
definition finalizer_array_clear :: "finalizer_array \<Rightarrow> finalizer_array \<times> event list" where
  "finalizer_array_clear fa = (fa\<lparr>m_tail := 0\<rparr>, call fa)"

text \<open>
  \<open>push_expand\<close>: \<open>r\<close> is what \<open>::realloc\<close> returns. \<open>realloc\<close> keeps the old contents and
  leaves the new room unwritten.
\<close>
definition push_expand ::
  "fptr \<Rightarrow> ptr \<Rightarrow> ptr \<Rightarrow> finalizer_array \<Rightarrow> (error + unit) \<times> finalizer_array \<times> event list" where
  "push_expand func data r fa =
     (let nused = m_end fa;
          nnext = (if nused = 0
                   then (if sizeof_finalizer < 72 div 2 then 72 div sizeof_finalizer else 8)
                   else nused * 2);
          ev = [Realloc (m_array fa) (of_nat (sizeof_finalizer * nnext)) r]
      in if r = nullptr then (Inl bad_alloc, fa, ev)
         else (Inr (),
               \<lparr>m_tail = nused + 1, m_end = nnext, m_array = r,
                slots = (take nused (slots fa) @ replicate (nnext - nused) None)
                          [nused := Some \<lparr>m_func = func, m_data = data\<rparr>]\<rparr>,
               ev))"

definition push ::
  "fptr \<Rightarrow> ptr \<Rightarrow> ptr \<Rightarrow> finalizer_array \<Rightarrow> (error + unit) \<times> finalizer_array \<times> event list" where
  "push func data r fa =
     (if m_tail fa = m_end fa then push_expand func data r fa
      else (Inr (),
            fa\<lparr>slots := (slots fa)[m_tail fa := Some \<lparr>m_func = func, m_data = data\<rparr>],
               m_tail := m_tail fa + 1\<rparr>,
            []))"

subsection \<open>chunk and chunk_list\<close>

text \<open>
  A chunk is a block obtained from \<open>::malloc\<close>: its address, the number of bytes that were
  requested for it (header included), and its \<open>m_next\<close> link (\<open>None\<close> is \<open>nullptr\<close>).
\<close>
datatype chunk = Chunk (c_addr: ptr) (c_bytes: size_t) (m_next: "chunk option")

record chunk_list =
  m_free :: size_t
  m_ptr :: ptr
  m_head :: chunk

text \<open>\<open>chunk_list(size_t chunk_size)\<close>; \<open>c\<close> is what \<open>::malloc\<close> returns.\<close>
definition chunk_list_ctor :: "size_t \<Rightarrow> ptr \<Rightarrow> (error + chunk_list) \<times> event list" where
  "chunk_list_ctor chunk_size c =
     (let ev = [Malloc (sizeof_chunk + chunk_size) c]
      in if c = nullptr then (Inl bad_alloc, ev)
         else (Inr \<lparr>m_free = chunk_size, m_ptr = c + sizeof_chunk,
                    m_head = Chunk c (sizeof_chunk + chunk_size) None\<rparr>, ev))"

text \<open>The loop of \<open>~chunk_list()\<close>: every chunk is freed.\<close>
fun free_all :: "chunk \<Rightarrow> event list" where
  "free_all (Chunk a b None) = [Free a]"
| "free_all (Chunk a b (Some n)) = Free a # free_all n"

definition chunk_list_dtor :: "chunk_list \<Rightarrow> event list" where
  "chunk_list_dtor cl = free_all (m_head cl)"

text \<open>
  The loop of \<open>chunk_list::clear\<close>: a chunk with a successor is freed, the one without is
  kept and becomes the head.
\<close>
fun free_but_last :: "chunk \<Rightarrow> chunk \<times> event list" where
  "free_but_last (Chunk a b None) = (Chunk a b None, [])"
| "free_but_last (Chunk a b (Some n)) =
     (case free_but_last n of (h, ev) \<Rightarrow> (h, Free a # ev))"

definition chunk_list_clear :: "size_t \<Rightarrow> chunk_list \<Rightarrow> chunk_list \<times> event list" where
  "chunk_list_clear chunk_size cl =
     (case free_but_last (m_head cl) of
        (h, ev) \<Rightarrow>
          (\<lparr>m_free = chunk_size, m_ptr = c_addr h + sizeof_chunk,
            m_head = Chunk (c_addr h) (c_bytes h) None\<rparr>, ev))"

subsection \<open>zone\<close>

record zone =
  m_chunk_size :: size_t
  m_chunk_list :: chunk_list
  m_finalizer_array :: finalizer_array

text \<open>
  \<open>zone(size_t chunk_size) noexcept : m_chunk_size(chunk_size), m_chunk_list(m_chunk_size)\<close>.
  The constructor is \<open>noexcept\<close>: the \<open>bad_alloc\<close> of \<open>chunk_list\<close> ends in
  \<open>std::terminate\<close>.
\<close>
definition zone_ctor :: "size_t \<Rightarrow> ptr \<Rightarrow> (error + zone) \<times> event list" where
  "zone_ctor chunk_size c =
     (case chunk_list_ctor chunk_size c of
        (Inl e, ev) \<Rightarrow> (Inl std_terminate, ev)
      | (Inr cl, ev) \<Rightarrow>
          (Inr \<lparr>m_chunk_size = chunk_size, m_chunk_list = cl,
                m_finalizer_array = finalizer_array_init\<rparr>, ev))"

text \<open>
  The implicit \<open>~zone()\<close>: the members are destroyed in the reverse order of their
  declaration, \<open>m_finalizer_array\<close> first, then \<open>m_chunk_list\<close>.
\<close>
definition zone_dtor :: "zone \<Rightarrow> event list" where
  "zone_dtor z = finalizer_array_dtor (m_finalizer_array z) @ chunk_list_dtor (m_chunk_list z)"

text \<open>
  \<open>zone::create\<close>: \<open>zp\<close> is what the \<open>::malloc\<close> of \<open>create\<close> returns, \<open>c\<close> what the
  \<open>::malloc\<close> of the \<open>chunk_list\<close> constructor returns. The result is the handle (the
  address with the zone that lives there), or \<open>None\<close> for \<open>nullptr\<close>.
\<close>
definition create :: "size_t \<Rightarrow> ptr \<Rightarrow> ptr \<Rightarrow> (error + (ptr \<times> zone) option) \<times> event list" where
  "create chunk_size zp c =
     (let ev = [Malloc (sizeof_zone + chunk_size) zp]
      in if zp = nullptr then (Inr None, ev)
         else (case zone_ctor chunk_size c of
                 (Inl e, ev') \<Rightarrow> (Inl e, ev @ ev')
               | (Inr z, ev') \<Rightarrow> (Inr (Some (zp, z)), ev @ ev')))"

text \<open>\<open>zone::destroy\<close>: \<open>z->~zone(); ::free(z);\<close>\<close>
definition destroy :: "ptr \<times> zone \<Rightarrow> event list" where
  "destroy h = zone_dtor (snd h) @ [Free (fst h)]"

text \<open>
  \<open>while(sz < size) { sz *= 2; }\<close> on 64-bit unsigned values. The loop need not end
  (\<open>sz = 0\<close>): \<open>None\<close> is "does not return".
\<close>
partial_function (option) grow_loop :: "size_t \<Rightarrow> size_t \<Rightarrow> size_t option" where
  "grow_loop sz n = (if sz < n then grow_loop (sz * 2) n else Some sz)"

declare grow_loop.simps [code]

text \<open>
  \<open>zone::allocate_expand\<close>; \<open>c\<close> is what \<open>::malloc\<close> returns. The parameter \<open>size\<close> of
  the source is written \<open>n\<close> here and below.
\<close>
definition allocate_expand :: "size_t \<Rightarrow> ptr \<Rightarrow> zone \<Rightarrow> (ptr \<times> zone \<times> event list) option" where
  "allocate_expand n c z =
     (case grow_loop (m_chunk_size z) n of
        None \<Rightarrow> None
      | Some sz \<Rightarrow>
          Some (let ev = [Malloc (sizeof_chunk + sz) c]
                in if c = nullptr then (nullptr, z, ev)
                   else (c + sizeof_chunk,
                         z\<lparr>m_chunk_list :=
                             \<lparr>m_free = sz - n,
                              m_ptr = c + sizeof_chunk + n,
                              m_head = Chunk c (sizeof_chunk + sz)
                                         (Some (m_head (m_chunk_list z)))\<rparr>\<rparr>,
                         ev)))"

text \<open>\<open>zone::allocate_no_align\<close>\<close>
definition allocate_no_align :: "size_t \<Rightarrow> ptr \<Rightarrow> zone \<Rightarrow> (ptr \<times> zone \<times> event list) option" where
  "allocate_no_align n c z =
     (let cl = m_chunk_list z
      in if m_free cl < n then allocate_expand n c z
         else Some (m_ptr cl,
                    z\<lparr>m_chunk_list := cl\<lparr>m_free := m_free cl - n,
                                          m_ptr := m_ptr cl + n\<rparr>\<rparr>,
                    []))"

text \<open>\<open>((size)+((MSGPACK_ZONE_ALIGN)-1)) & ~((MSGPACK_ZONE_ALIGN)-1)\<close>\<close>
definition align_size :: "size_t \<Rightarrow> size_t" where
  "align_size n = (n + (MSGPACK_ZONE_ALIGN - 1)) AND NOT (MSGPACK_ZONE_ALIGN - 1)"

text \<open>\<open>zone::allocate_align\<close>\<close>
definition allocate_align :: "size_t \<Rightarrow> ptr \<Rightarrow> zone \<Rightarrow> (ptr \<times> zone \<times> event list) option" where
  "allocate_align n c z = allocate_no_align (align_size n) c z"

text \<open>\<open>zone::push_finalizer(func, data)\<close>, with a function pointer and its argument.\<close>
definition push_finalizer ::
  "fptr \<Rightarrow> ptr \<Rightarrow> ptr \<Rightarrow> zone \<Rightarrow> (error + unit) \<times> zone \<times> event list" where
  "push_finalizer func data r z =
     (case push func data r (m_finalizer_array z) of
        (res, fa, ev) \<Rightarrow> (res, z\<lparr>m_finalizer_array := fa\<rparr>, ev))"

text \<open>
  \<open>zone::push_finalizer(msgpack::unique_ptr<T> obj)\<close>: \<open>push\<close>, then \<open>obj.release()\<close>.
  \<open>obj\<close> is a parameter passed by value. When \<open>push\<close> throws, \<open>release\<close> was not reached:
  unwinding destroys the parameter, which deletes the object it still owns (a \<open>unique_ptr\<close>
  that holds \<open>nullptr\<close> deletes nothing). After \<open>release\<close> the parameter owns nothing.
\<close>
definition push_finalizer_unique_ptr ::
  "cxx_type \<Rightarrow> ptr \<Rightarrow> ptr \<Rightarrow> zone \<Rightarrow> (error + unit) \<times> zone \<times> event list" where
  "push_finalizer_unique_ptr T obj r z =
     (case push (object_destructor (type_id T)) obj r (m_finalizer_array z) of
        (Inl e, fa, ev) \<Rightarrow>
          (Inl e, z\<lparr>m_finalizer_array := fa\<rparr>,
           ev @ (if obj = nullptr then [] else [Delete (type_id T) obj]))
      | (Inr u, fa, ev) \<Rightarrow> (Inr (), z\<lparr>m_finalizer_array := fa\<rparr>, ev))"

text \<open>\<open>zone::clear\<close>\<close>
definition clear :: "zone \<Rightarrow> zone \<times> event list" where
  "clear z =
     (case finalizer_array_clear (m_finalizer_array z) of
        (fa, ev1) \<Rightarrow>
          (case chunk_list_clear (m_chunk_size z) (m_chunk_list z) of
             (cl, ev2) \<Rightarrow> (z\<lparr>m_finalizer_array := fa, m_chunk_list := cl\<rparr>, ev1 @ ev2)))"

text \<open>
  \<open>std::swap(a, b)\<close> of the standard library, for a class without a swap of its own:
  \<open>T tmp(std::move(a)); a = std::move(b); b = std::move(tmp);\<close>. \<open>chunk_list\<close> and
  \<open>finalizer_array\<close> declare a destructor and no move or copy operation, so these moves are
  member-wise copies, and \<open>tmp\<close> is a local object whose destructor runs when \<open>std::swap\<close>
  returns.
\<close>
definition std_swap :: "zone \<Rightarrow> zone \<Rightarrow> zone \<times> zone \<times> event list" where
  "std_swap a b =
     (let tmp = a;
          a' = b;
          b' = tmp
      in (a', b', zone_dtor tmp))"

text \<open>
  \<open>zone::swap(o)\<close> calls \<open>std::swap\<close> on this arena and \<open>o\<close>; the result is the new state of
  this arena, the new state of \<open>o\<close>, and the events.
\<close>
definition swap :: "zone \<Rightarrow> zone \<Rightarrow> zone \<times> zone \<times> event list" where
  "swap this other = std_swap this other"

text \<open>\<open>zone::undo_allocate\<close>\<close>
definition undo_allocate :: "size_t \<Rightarrow> zone \<Rightarrow> zone" where
  "undo_allocate n z =
     z\<lparr>m_chunk_list := (m_chunk_list z)\<lparr>m_ptr := m_ptr (m_chunk_list z) - n,
                                         m_free := m_free (m_chunk_list z) + n\<rparr>\<rparr>"

text \<open>
  \<open>--m_finalizer_array.m_tail\<close>. The source runs it only after a \<open>push\<close> that returned, when
  \<open>m_tail\<close> is at least one entry above \<open>m_array\<close>.
\<close>
definition pop_tail :: "zone \<Rightarrow> zone" where
  "pop_tail z = z\<lparr>m_finalizer_array := (m_finalizer_array z)\<lparr>m_tail := m_tail (m_finalizer_array z) - 1\<rparr>\<rparr>"

text \<open>
  \<open>zone::allocate<T>(args...)\<close>. \<open>c\<close> is what \<open>::malloc\<close> returns if a chunk is needed, \<open>r\<close>
  what \<open>::realloc\<close> returns if the registry grows, \<open>ctor_throws\<close> tells whether
  \<open>T(args...)\<close> throws. The source does not test \<open>x\<close> against \<open>nullptr\<close>, and neither does
  the model. \<open>Construct\<close> is recorded when the constructor has returned.
\<close>
definition allocate ::
  "cxx_type \<Rightarrow> ptr \<Rightarrow> ptr \<Rightarrow> bool \<Rightarrow> zone \<Rightarrow> ((error + ptr) \<times> zone \<times> event list) option" where
  "allocate T c r ctor_throws z =
     (case allocate_align (sizeof T) c z of
        None \<Rightarrow> None
      | Some (x, z1, ev1) \<Rightarrow>
          Some (case push (object_destructor (type_id T)) x r (m_finalizer_array z1) of
                  (Inl e, fa, ev2) \<Rightarrow>
                    (Inl e, undo_allocate (sizeof T) (z1\<lparr>m_finalizer_array := fa\<rparr>), ev1 @ ev2)
                | (Inr u, fa, ev2) \<Rightarrow>
                    (if ctor_throws
                     then (Inl ctor_exception,
                           undo_allocate (sizeof T) (pop_tail (z1\<lparr>m_finalizer_array := fa\<rparr>)),
                           ev1 @ ev2)
                     else (Inr x, z1\<lparr>m_finalizer_array := fa\<rparr>,
                           ev1 @ ev2 @ [Construct (type_id T) x]))))"

subsection \<open>Views of the state used to state the properties\<close>

text \<open>The entries in \<open>[m_array, m_tail)\<close>, oldest first.\<close>
definition registered :: "finalizer_array \<Rightarrow> finalizer option list" where
  "registered fa = take (m_tail fa) (slots fa)"

text \<open>What calling one entry does.\<close>
definition entry_call :: "finalizer option \<Rightarrow> event" where
  "entry_call s = (case s of Some f \<Rightarrow> Invoke (m_func f) (m_data f) | None \<Rightarrow> InvokeGarbage)"

text \<open>The finalizer invocations among the events of an operation, in order.\<close>
fun is_call :: "event \<Rightarrow> bool" where
  "is_call (Invoke f d) = True"
| "is_call InvokeGarbage = True"
| "is_call e = False"

definition finalizer_calls :: "event list \<Rightarrow> event list" where
  "finalizer_calls ev = filter is_call ev"

fun is_malloc :: "event \<Rightarrow> bool" where
  "is_malloc (Malloc n p) = True"
| "is_malloc e = False"

fun is_construct :: "event \<Rightarrow> bool" where
  "is_construct (Construct t p) = True"
| "is_construct e = False"

fun is_free :: "event \<Rightarrow> bool" where
  "is_free (Free p) = True"
| "is_free e = False"

fun is_delete :: "event \<Rightarrow> bool" where
  "is_delete (Delete t p) = True"
| "is_delete e = False"

text \<open>
  The invariant of the registry, \<open>m_array <= m_tail <= m_end\<close> with the entries below
  \<open>m_tail\<close> written: the offsets are within the block that \<open>slots\<close> describes.
\<close>
definition finalizer_array_ok :: "finalizer_array \<Rightarrow> bool" where
  "finalizer_array_ok fa \<longleftrightarrow>
     m_tail fa \<le> m_end fa \<and> m_end fa = length (slots fa) \<and>
     list_all (\<lambda>s. s \<noteq> None) (registered fa)"

text \<open>The chunks of a list, head first; the last one has no \<open>m_next\<close>.\<close>
fun chunks :: "chunk \<Rightarrow> chunk list" where
  "chunks (Chunk a b None) = [Chunk a b None]"
| "chunks (Chunk a b (Some n)) = Chunk a b (Some n) # chunks n"

text \<open>
  The invariant of the chunk list: \<open>m_ptr\<close> lies in the storage of the head chunk (the block
  after its header) and \<open>m_free\<close> is the number of bytes from \<open>m_ptr\<close> to the end of the block.
\<close>
definition chunk_list_ok :: "chunk_list \<Rightarrow> bool" where
  "chunk_list_ok cl \<longleftrightarrow>
     unat (c_addr (m_head cl)) + unat sizeof_chunk \<le> unat (m_ptr cl) \<and>
     unat (m_ptr cl) \<le> unat (c_addr (m_head cl)) + unat (c_bytes (m_head cl)) \<and>
     unat (m_ptr cl) + unat (m_free cl) = unat (c_addr (m_head cl)) + unat (c_bytes (m_head cl))"

text \<open>A chunk's block, as requested from the allocator, lies in the address space.\<close>
definition chunk_in_memory :: "chunk \<Rightarrow> bool" where
  "chunk_in_memory ch \<longleftrightarrow> unat (c_addr ch) + unat (c_bytes ch) < 2 ^ 64"

text \<open>
  What is assumed of the allocator when it supplies a chunk with room for \<open>sz\<close> bytes at
  \<open>c\<close>: the address is not \<open>nullptr\<close> and the header with the \<open>sz\<close> bytes lies in the
  address space.
\<close>
definition supplied :: "ptr \<Rightarrow> size_t \<Rightarrow> bool" where
  "supplied c sz \<longleftrightarrow> c \<noteq> nullptr \<and> unat c + unat sizeof_chunk + unat sz < 2 ^ 64"

text \<open>
  The invariants of an arena together: those of the chunk list and of the registry, with
  the head chunk and the last chunk in the address space and the last chunk (the one the
  constructor allocated) of the configured size.
\<close>
definition zone_ok :: "zone \<Rightarrow> bool" where
  "zone_ok z \<longleftrightarrow>
     chunk_list_ok (m_chunk_list z) \<and>
     chunk_in_memory (m_head (m_chunk_list z)) \<and>
     chunk_in_memory (last (chunks (m_head (m_chunk_list z)))) \<and>
     unat (c_bytes (last (chunks (m_head (m_chunk_list z))))) =
       unat sizeof_chunk + unat (m_chunk_size z) \<and>
     finalizer_array_ok (m_finalizer_array z)"

text \<open>An address is a multiple of \<open>MSGPACK_ZONE_ALIGN\<close>.\<close>
definition aligned :: "ptr \<Rightarrow> bool" where
  "aligned p \<longleftrightarrow> unat p mod unat MSGPACK_ZONE_ALIGN = 0"

subsection \<open>Concrete arenas and types for the examples\<close>

text \<open>\<open>zone(64)\<close> whose chunk was allocated at \<open>0x1000\<close>.\<close>
definition ex_zone64 :: zone where
  "ex_zone64 = \<lparr>m_chunk_size = 64,
                 m_chunk_list = \<lparr>m_free = 64, m_ptr = 0x1008, m_head = Chunk 0x1000 72 None\<rparr>,
                 m_finalizer_array = finalizer_array_init\<rparr>"

definition ex_TA :: cxx_type where
  "ex_TA = \<lparr>type_id = 1, sizeof = 8\<rparr>"

definition ex_TB :: cxx_type where
  "ex_TB = \<lparr>type_id = 2, sizeof = 16\<rparr>"

definition ex_TC :: cxx_type where
  "ex_TC = \<lparr>type_id = 3, sizeof = 4\<rparr>"

text \<open>\<open>ex_zone64\<close> after \<open>allocate<A>()\<close>, then \<open>allocate<B>()\<close>, then \<open>allocate<C>()\<close>.\<close>
definition ex_zA :: zone where
  "ex_zA = \<lparr>m_chunk_size = 64,
             m_chunk_list = \<lparr>m_free = 56, m_ptr = 0x1010, m_head = Chunk 0x1000 72 None\<rparr>,
             m_finalizer_array =
               \<lparr>m_tail = 1, m_end = 4, m_array = 0x3000,
                slots = [Some \<lparr>m_func = object_destructor 1, m_data = 0x1008\<rparr>,
                         None, None, None]\<rparr>\<rparr>"

definition ex_zB :: zone where
  "ex_zB = \<lparr>m_chunk_size = 64,
             m_chunk_list = \<lparr>m_free = 40, m_ptr = 0x1020, m_head = Chunk 0x1000 72 None\<rparr>,
             m_finalizer_array =
               \<lparr>m_tail = 2, m_end = 4, m_array = 0x3000,
                slots = [Some \<lparr>m_func = object_destructor 1, m_data = 0x1008\<rparr>,
                         Some \<lparr>m_func = object_destructor 2, m_data = 0x1010\<rparr>,
                         None, None]\<rparr>\<rparr>"

definition ex_zC :: zone where
  "ex_zC = \<lparr>m_chunk_size = 64,
             m_chunk_list = \<lparr>m_free = 36, m_ptr = 0x1024, m_head = Chunk 0x1000 72 None\<rparr>,
             m_finalizer_array =
               \<lparr>m_tail = 3, m_end = 4, m_array = 0x3000,
                slots = [Some \<lparr>m_func = object_destructor 1, m_data = 0x1008\<rparr>,
                         Some \<lparr>m_func = object_destructor 2, m_data = 0x1010\<rparr>,
                         Some \<lparr>m_func = object_destructor 3, m_data = 0x1020\<rparr>,
                         None]\<rparr>\<rparr>"


text \<open>\<open>ex_zone64\<close> after \<open>allocate_no_align(40)\<close> twice; the second chunk is at \<open>0x2000\<close>.\<close>
definition ex_zone64_two :: zone where
  "ex_zone64_two = \<lparr>m_chunk_size = 64,
                     m_chunk_list = \<lparr>m_free = 24, m_ptr = 0x2030,
                                     m_head = Chunk 0x2000 72 (Some (Chunk 0x1000 72 None))\<rparr>,
                     m_finalizer_array = finalizer_array_init\<rparr>"

text \<open>\<open>zone(8)\<close> whose chunk was allocated at \<open>0x1000\<close>, and a type of 16 bytes.\<close>
definition ex_zone8 :: zone where
  "ex_zone8 = \<lparr>m_chunk_size = 8,
                m_chunk_list = \<lparr>m_free = 8, m_ptr = 0x1008, m_head = Chunk 0x1000 16 None\<rparr>,
                m_finalizer_array = finalizer_array_init\<rparr>"

definition ex_T16 :: cxx_type where
  "ex_T16 = \<lparr>type_id = 7, sizeof = 16\<rparr>"

text \<open>
  \<open>ex_zone8\<close> after \<open>allocate<T16>()\<close> took a new chunk at \<open>0x2000\<close>, registered the finalizer
  in a registry block at \<open>0x3000\<close>, and the constructor threw.
\<close>
definition ex_zone8_thrown :: zone where
  "ex_zone8_thrown =
     \<lparr>m_chunk_size = 8,
      m_chunk_list = \<lparr>m_free = 16, m_ptr = 0x2008,
                      m_head = Chunk 0x2000 24 (Some (Chunk 0x1000 16 None))\<rparr>,
      m_finalizer_array =
        \<lparr>m_tail = 0, m_end = 4, m_array = 0x3000,
         slots = [Some \<lparr>m_func = object_destructor 7, m_data = 0x2008\<rparr>, None, None, None]\<rparr>\<rparr>"

text \<open>
  \<open>ex_zone8\<close> after \<open>allocate<T16>()\<close> took a new chunk at \<open>0x2000\<close> and the registry could
  not grow.
\<close>
definition ex_zone8_grown :: zone where
  "ex_zone8_grown =
     \<lparr>m_chunk_size = 8,
      m_chunk_list = \<lparr>m_free = 16, m_ptr = 0x2008,
                      m_head = Chunk 0x2000 24 (Some (Chunk 0x1000 16 None))\<rparr>,
      m_finalizer_array = finalizer_array_init\<rparr>"

text \<open>
  \<open>ex_zone8\<close> after \<open>allocate<T16>()\<close> got neither the new chunk nor the registry block.
\<close>
definition ex_zone8_broken :: zone where
  "ex_zone8_broken =
     \<lparr>m_chunk_size = 8,
      m_chunk_list = \<lparr>m_free = 24, m_ptr = 0xFF8, m_head = Chunk 0x1000 16 None\<rparr>,
      m_finalizer_array = finalizer_array_init\<rparr>"

text \<open>\<open>zone(0)\<close> whose chunk was allocated at \<open>0x1000\<close>.\<close>
definition ex_zone0 :: zone where
  "ex_zone0 = \<lparr>m_chunk_size = 0,
                m_chunk_list = \<lparr>m_free = 0, m_ptr = 0x1008, m_head = Chunk 0x1000 8 None\<rparr>,
                m_finalizer_array = finalizer_array_init\<rparr>"

section \<open>Properties\<close>

subsection \<open>The finalizer registry\<close>

lemma invoke_slot_entry: "i < length arr \<Longrightarrow> invoke_slot arr i = entry_call (arr ! i)"
  by (simp add: invoke_slot_def entry_call_def)

lemma call_loop_rev: "n \<le> length arr \<Longrightarrow> call_loop arr n = rev (map entry_call (take n arr))"
proof (induction n)
  case 0
  then show ?case by simp
next
  case (Suc n)
  then have "n < length arr" by simp
  then show ?case using Suc by (simp add: take_Suc_conv_app_nth invoke_slot_entry)
qed

lemma call_registered:
  "finalizer_array_ok fa \<Longrightarrow> call fa = rev (map entry_call (registered fa))"
  by (simp add: call_def registered_def finalizer_array_ok_def call_loop_rev)

lemma call_loop_calls: "filter is_call (call_loop arr n) = call_loop arr n"
  by (induction n) (auto simp: invoke_slot_def split: option.splits)

lemma call_loop_no_free: "filter is_free (call_loop arr n) = []"
  by (induction n) (auto simp: invoke_slot_def split: option.splits)

lemma call_loop_no_malloc: "filter is_malloc (call_loop arr n) = []"
  by (induction n) (auto simp: invoke_slot_def split: option.splits)

lemma finalizer_array_init_ok: "finalizer_array_ok finalizer_array_init"
  by (simp add: finalizer_array_ok_def finalizer_array_init_def registered_def)

lemma push_fail:
  "push func data r fa = (Inl e, fa', ev) \<Longrightarrow>
     e = bad_alloc \<and> fa' = fa \<and> r = nullptr \<and> m_tail fa = m_end fa \<and> finalizer_calls ev = []"
  by (auto simp: push_def push_expand_def Let_def finalizer_calls_def split: if_splits)

lemma push_ok:
  assumes "finalizer_array_ok fa" and "push func data r fa = (Inr u, fa', ev)"
  shows "finalizer_array_ok fa'"
    and "registered fa' = registered fa @ [Some \<lparr>m_func = func, m_data = data\<rparr>]"
    and "finalizer_calls ev = []"
  using assms
  by (auto simp: push_def push_expand_def Let_def finalizer_calls_def finalizer_array_ok_def
      registered_def sizeof_finalizer_def take_Suc_conv_app_nth list_all_iff nth_append Suc_le_eq
      split: if_splits dest: in_set_takeD)

lemma push_succeeds:
  "m_tail fa = m_end fa \<longrightarrow> r \<noteq> nullptr \<Longrightarrow> \<exists>fa' ev. push func data r fa = (Inr (), fa', ev)"
  by (auto simp: push_def push_expand_def Let_def)

lemma push_then_pop:
  assumes "finalizer_array_ok fa" and "push func data r fa = (Inr u, fa', ev)"
  shows "finalizer_array_ok (fa'\<lparr>m_tail := m_tail fa' - 1\<rparr>)"
    and "registered (fa'\<lparr>m_tail := m_tail fa' - 1\<rparr>) = registered fa"
  using assms
  by (auto simp: push_def push_expand_def Let_def finalizer_array_ok_def registered_def
      sizeof_finalizer_def list_all_iff Suc_le_eq
      split: if_splits dest: in_set_takeD)

lemma push_events:
  "push func data r fa = (res, fa', ev) \<Longrightarrow>
     filter is_construct ev = [] \<and> filter is_delete ev = []"
  by (auto simp: push_def push_expand_def Let_def split: if_splits)

lemma push_finalizer_fails:
  "m_tail (m_finalizer_array z) = m_end (m_finalizer_array z) \<Longrightarrow>
   \<exists>ev. push_finalizer func data nullptr z = (Inl bad_alloc, z, ev) \<and> finalizer_calls ev = []"
  by (simp add: push_finalizer_def push_def push_expand_def Let_def finalizer_calls_def)

subsection \<open>The chunk list\<close>

lemma chunks_nonempty: "chunks c \<noteq> []"
  by (cases c rule: chunks.cases) auto

lemma free_but_last_chunks:
  "free_but_last c = (last (chunks c), map (\<lambda>x. Free (c_addr x)) (butlast (chunks c)))"
  by (induction c rule: chunks.induct) (auto simp: chunks_nonempty split: prod.splits)

lemma last_chunks_terminal: "m_next (last (chunks c)) = None"
  by (induction c rule: chunks.induct) (auto simp: chunks_nonempty)

lemma free_all_chunks: "free_all c = map (\<lambda>x. Free (c_addr x)) (chunks c)"
  by (induction c rule: chunks.induct) auto

lemma free_but_last_calls: "filter is_call (snd (free_but_last c)) = []"
  by (induction c rule: free_but_last.induct) (auto split: prod.splits)

lemma free_all_calls: "filter is_call (free_all c) = []"
  by (induction c rule: free_all.induct) auto

lemma filter_free_map:
  "filter is_free (map (\<lambda>x. Free (c_addr x)) cs) = map (\<lambda>x. Free (c_addr x)) cs"
  by (induction cs) auto

lemma filter_malloc_map: "filter is_malloc (map (\<lambda>x. Free (c_addr x)) cs) = []"
  by (induction cs) auto

subsection \<open>The growth loop\<close>

lemma grow_loop_done: "\<not> sz < n \<Longrightarrow> grow_loop sz n = Some sz"
  by (subst grow_loop.simps) simp

lemma grow_loop_step: "sz < n \<Longrightarrow> grow_loop sz n = grow_loop (sz * 2) n"
  by (subst grow_loop.simps) simp

text \<open>Once \<open>sz\<close> is 0 it stays 0: the loop returns only if nothing was asked for.\<close>
lemma grow_loop_zero:
  assumes "grow_loop sz n = Some y"
  shows "sz = 0 \<longrightarrow> n = 0"
  by (rule grow_loop.raw_induct [rotated, where P = "\<lambda>sz n y. sz = 0 \<longrightarrow> n = 0", OF assms])
     (auto simp: word_gt_0 split: if_splits)

lemma grow_loop_diverges: "0 < n \<Longrightarrow> grow_loop 0 n = None"
  using grow_loop_zero [of 0 n] by (cases "grow_loop 0 n") auto

lemma grow_loop_step_nonzero:
  "sz < n \<Longrightarrow> sz \<noteq> 0 \<Longrightarrow> grow_loop sz n = grow_loop (sz * 2) n"
  by (rule grow_loop_step)

text \<open>
  With the default chunk size 8192 and a request above \<open>2 ^ 63\<close> the doubling wraps to 0
  and the loop does not end.
\<close>
lemma grow_loop_default_wraps: "grow_loop 8192 0x8000000000000001 = None"
proof -
  have w: "(18446744073709551616 :: 64 word) = 0"
    by transfer simp
  show ?thesis
    by (simp add: grow_loop_step_nonzero grow_loop_diverges w)
qed

lemma unat_double: "unat (sz :: 64 word) * 2 < 2 ^ 64 \<Longrightarrow> unat (sz * 2) = unat sz * 2"
  by (simp add: unat_word_ariths)

lemma double_pow_nat: "(a::nat) * 2 * 2 ^ k = a * 2 ^ Suc k"
  by (simp only: power_Suc mult.assoc)

lemma double_pow_word: "(sz :: 64 word) * 2 * 2 ^ j = sz * 2 ^ Suc j"
  by (simp only: power_Suc mult.assoc)

lemma double_small: "(a::nat) * 2 ^ Suc k < 2 ^ 64 \<Longrightarrow> a * 2 < 2 ^ 64"
proof -
  assume h: "a * 2 ^ Suc k < 2 ^ 64"
  have "a * 2 * 1 \<le> a * 2 * 2 ^ k" by (rule mult_le_mono2) simp
  then have "a * 2 \<le> a * 2 ^ Suc k" by (simp only: mult_1_right double_pow_nat)
  then show ?thesis using h by (rule le_less_trans)
qed

text \<open>
  When some doubling of \<open>sz\<close> reaches \<open>n\<close> below \<open>2 ^ 64\<close>, the loop returns the first such
  doubling, and no multiplication wrapped.
\<close>
lemma grow_loop_doubles:
  "unat n \<le> unat sz * 2 ^ k \<Longrightarrow> unat sz * 2 ^ k < 2 ^ 64 \<Longrightarrow>
   \<exists>j\<le>k. grow_loop sz n = Some (sz * 2 ^ j) \<and> unat (sz * 2 ^ j) = unat sz * 2 ^ j \<and>
          n \<le> sz * 2 ^ j \<and> (\<forall>i<j. unat sz * 2 ^ i < unat n)"
proof (induction k arbitrary: sz)
  case 0
  then have "\<not> sz < n" by (simp add: word_less_nat_alt)
  then have "grow_loop sz n = Some sz \<and> n \<le> sz" by (simp add: grow_loop_done)
  then show ?case by simp
next
  case (Suc k)
  show ?case
  proof (cases "sz < n")
    case False
    then have "grow_loop sz n = Some sz \<and> n \<le> sz" by (simp add: grow_loop_done)
    then show ?thesis by (intro exI [of _ 0]) simp
  next
    case True
    have small: "unat sz * 2 < 2 ^ 64"
      by (rule double_small [OF Suc.prems(2)])
    have u: "unat (sz * 2) = unat sz * 2"
      by (rule unat_double [OF small])
    from Suc.prems have "unat n \<le> unat (sz * 2) * 2 ^ k" "unat (sz * 2) * 2 ^ k < 2 ^ 64"
      by (simp_all only: u double_pow_nat)
    from Suc.IH [OF this] obtain j where j: "j \<le> k"
      "grow_loop (sz * 2) n = Some (sz * 2 * 2 ^ j)"
      "unat (sz * 2 * 2 ^ j) = unat (sz * 2) * 2 ^ j"
      "n \<le> sz * 2 * 2 ^ j" "\<forall>i<j. unat (sz * 2) * 2 ^ i < unat n"
      by blast
    have g: "grow_loop sz n = Some (sz * 2 ^ Suc j)"
      using j(2) by (simp only: grow_loop_step [OF True] double_pow_word)
    have le: "unat sz * 2 ^ i < unat n" if "i < Suc j" for i
    proof (cases i)
      case 0
      with True show ?thesis by (simp add: word_less_nat_alt)
    next
      case (Suc i')
      with that have "i' < j" by simp
      with j(5) have "unat (sz * 2) * 2 ^ i' < unat n" by blast
      then show ?thesis by (simp only: u double_pow_nat Suc)
    qed
    have k: "Suc j \<le> Suc k" using j(1) by simp
    have a: "unat (sz * 2 ^ Suc j) = unat sz * 2 ^ Suc j"
      using j(3) by (simp only: u double_pow_word double_pow_nat)
    have b: "n \<le> sz * 2 ^ Suc j"
      using j(4) by (simp only: double_pow_word)
    from k g a b le show ?thesis by blast
  qed
qed

subsection \<open>Raw allocation\<close>

lemma allocate_no_align_fits:
  "\<not> m_free (m_chunk_list z) < n \<Longrightarrow>
   allocate_no_align n c z =
     Some (m_ptr (m_chunk_list z),
           z\<lparr>m_chunk_list := (m_chunk_list z)\<lparr>m_free := m_free (m_chunk_list z) - n,
                                               m_ptr := m_ptr (m_chunk_list z) + n\<rparr>\<rparr>, [])"
  by (simp add: allocate_no_align_def Let_def)

lemma allocate_no_align_grows:
  "m_free (m_chunk_list z) < n \<Longrightarrow> grow_loop (m_chunk_size z) n = Some sz \<Longrightarrow> c \<noteq> nullptr \<Longrightarrow>
   allocate_no_align n c z =
     Some (c + sizeof_chunk,
           z\<lparr>m_chunk_list :=
               \<lparr>m_free = sz - n, m_ptr = c + sizeof_chunk + n,
                m_head = Chunk c (sizeof_chunk + sz) (Some (m_head (m_chunk_list z)))\<rparr>\<rparr>,
           [Malloc (sizeof_chunk + sz) c])"
  by (simp add: allocate_no_align_def allocate_expand_def Let_def)

lemma allocate_no_align_fails:
  "m_free (m_chunk_list z) < n \<Longrightarrow> grow_loop (m_chunk_size z) n = Some sz \<Longrightarrow>
   allocate_no_align n nullptr z = Some (nullptr, z, [Malloc (sizeof_chunk + sz) nullptr])"
  by (simp add: allocate_no_align_def allocate_expand_def Let_def)

lemma allocate_no_align_diverges:
  "m_free (m_chunk_list z) < n \<Longrightarrow> m_chunk_size z = 0 \<Longrightarrow> allocate_no_align n c z = None"
proof -
  assume a: "m_free (m_chunk_list z) < n" and b: "m_chunk_size z = 0"
  from a have "0 < n" by (simp add: word_gt_0) (metis word_not_simps(1))
  then have "grow_loop (m_chunk_size z) n = None" by (simp add: b grow_loop_diverges)
  with a show ?thesis by (simp add: allocate_no_align_def allocate_expand_def Let_def)
qed

text \<open>
  Growth when no doubling wraps and the allocator supplies the block: the new chunk has room
  for the first doubling of the chunk size that reaches \<open>n\<close>, it is the head, the old head is
  its \<open>m_next\<close>, the request is served from its start.
\<close>
lemma allocate_no_align_new_head:
  assumes less: "m_free (m_chunk_list z) < n"
    and reach: "unat n \<le> unat (m_chunk_size z) * 2 ^ k"
    and nowrap: "unat (m_chunk_size z) * 2 ^ k < 2 ^ 64"
    and c: "c \<noteq> nullptr"
  shows "\<exists>j\<le>k. \<exists>sz.
           unat sz = unat (m_chunk_size z) * 2 ^ j \<and> n \<le> sz \<and>
           (\<forall>i<j. unat (m_chunk_size z) * 2 ^ i < unat n) \<and>
           allocate_no_align n c z =
             Some (c + sizeof_chunk,
                   z\<lparr>m_chunk_list :=
                       \<lparr>m_free = sz - n, m_ptr = c + sizeof_chunk + n,
                        m_head = Chunk c (sizeof_chunk + sz) (Some (m_head (m_chunk_list z)))\<rparr>\<rparr>,
                   [Malloc (sizeof_chunk + sz) c])"
proof -
  from grow_loop_doubles [OF reach nowrap] obtain j where j: "j \<le> k"
    "grow_loop (m_chunk_size z) n = Some (m_chunk_size z * 2 ^ j)"
    "unat (m_chunk_size z * 2 ^ j) = unat (m_chunk_size z) * 2 ^ j"
    "n \<le> m_chunk_size z * 2 ^ j" "\<forall>i<j. unat (m_chunk_size z) * 2 ^ i < unat n"
    by blast
  from allocate_no_align_grows [OF less j(2) c] j show ?thesis by blast
qed

lemma allocate_expand_frame:
  "allocate_expand n c z = Some (x, z1, ev) \<Longrightarrow>
     m_finalizer_array z1 = m_finalizer_array z \<and> m_chunk_size z1 = m_chunk_size z \<and>
     finalizer_calls ev = []"
  by (auto simp: allocate_expand_def Let_def finalizer_calls_def split: option.splits if_splits)

lemma allocate_no_align_frame:
  "allocate_no_align n c z = Some (x, z1, ev) \<Longrightarrow>
     m_finalizer_array z1 = m_finalizer_array z \<and> m_chunk_size z1 = m_chunk_size z \<and>
     finalizer_calls ev = []"
  by (auto simp: allocate_no_align_def Let_def finalizer_calls_def
      split: if_splits dest: allocate_expand_frame)

lemma allocate_align_frame:
  "allocate_align n c z = Some (x, z1, ev) \<Longrightarrow>
     m_finalizer_array z1 = m_finalizer_array z \<and> m_chunk_size z1 = m_chunk_size z \<and>
     finalizer_calls ev = []"
  unfolding allocate_align_def by (rule allocate_no_align_frame)

subsection \<open>Alignment\<close>

lemma aligned_iff: "aligned p \<longleftrightarrow> p AND 3 = 0"
proof -
  have "p AND 3 = take_bit 2 p"
    by (simp add: take_bit_eq_mask mask_numeral)
  also have "\<dots> = p mod 4"
    by (simp add: take_bit_eq_mod)
  finally have "unat (p AND 3) = unat p mod 4"
    by (simp add: unat_mod)
  then show ?thesis
    by (simp add: aligned_def MSGPACK_ZONE_ALIGN_def unat_eq_0 [symmetric])
qed

lemma aligned_add: "aligned p \<Longrightarrow> aligned q \<Longrightarrow> aligned (p + q)"
proof -
  assume a: "aligned p" "aligned q"
  have "unat (p + q) mod 4 = ((unat p + unat q) mod 2 ^ 64) mod 4"
    by (simp add: unat_word_ariths)
  also have "\<dots> = (unat p + unat q) mod 4"
    by (rule mod_mod_cancel) simp
  also have "\<dots> = 0"
    using a by (simp add: aligned_def MSGPACK_ZONE_ALIGN_def mod_add_eq [symmetric])
  finally show ?thesis by (simp add: aligned_def MSGPACK_ZONE_ALIGN_def)
qed


lemma aligned_sizeof_chunk: "aligned sizeof_chunk"
  by (simp add: aligned_def sizeof_chunk_def MSGPACK_ZONE_ALIGN_def)

text \<open>Rounding up leaves a multiple of the alignment as it is.\<close>
lemma align_size_id: "aligned n \<Longrightarrow> align_size n = n"
proof -
  assume "aligned n"
  then have z: "n AND 3 = 0" by (simp add: aligned_iff)
  then have "n + 3 = n OR 3" by (rule disjunctive_add_eq_or)
  then have "(n + 3) AND NOT 3 = (n AND NOT 3) OR (3 AND NOT (3::64 word))"
    by (simp only: bit.conj_disj_distrib2)
  also have "\<dots> = n AND NOT 3" by simp
  also have "\<dots> = (n AND NOT 3) OR (n AND 3)" using z by simp
  also have "\<dots> = n AND (NOT 3 OR 3)" by (simp only: bit.conj_disj_distrib)
  also have "\<dots> = n" by simp
  finally show ?thesis by (simp add: align_size_def MSGPACK_ZONE_ALIGN_def)
qed

subsection \<open>clear, destroy and swap\<close>

lemma clear_calls: "finalizer_calls (snd (clear z)) = call (m_finalizer_array z)"
  using free_but_last_calls [of "m_head (m_chunk_list z)"]
  by (auto simp: clear_def finalizer_array_clear_def chunk_list_clear_def finalizer_calls_def
      call_def call_loop_calls split: prod.splits)

lemma destroy_calls: "finalizer_calls (destroy (h, z)) = call (m_finalizer_array z)"
  by (simp add: destroy_def zone_dtor_def finalizer_array_dtor_def chunk_list_dtor_def
      finalizer_calls_def call_def call_loop_calls free_all_calls)

lemma clear_registry: "m_tail (m_finalizer_array (fst (clear z))) = 0"
  by (simp add: clear_def finalizer_array_clear_def split: prod.splits)

lemma clear_calls_registered:
  "finalizer_array_ok (m_finalizer_array z) \<Longrightarrow>
   finalizer_calls (snd (clear z)) = rev (map entry_call (registered (m_finalizer_array z)))"
  by (simp add: clear_calls call_registered)

text \<open>What \<open>swap\<close> does: the states change places, and the destructor of the temporary runs
  on the state that \<open>*this\<close> had.\<close>
lemma swap_eq: "swap x y = (y, x, zone_dtor x)"
  by (simp add: swap_def std_swap_def Let_def)

subsection \<open>Typed allocation\<close>

lemma allocate_success:
  assumes ok: "finalizer_array_ok (m_finalizer_array z)"
    and al: "allocate T c r th z = Some (Inr p, z', ev)"
  shows "finalizer_array_ok (m_finalizer_array z') \<and>
         registered (m_finalizer_array z') =
           registered (m_finalizer_array z) @
             [Some \<lparr>m_func = object_destructor (type_id T), m_data = p\<rparr>] \<and>
         finalizer_calls ev = []"
proof -
  from al obtain x z1 ev1 where a1: "allocate_align (sizeof T) c z = Some (x, z1, ev1)"
    by (auto simp: allocate_def split: option.splits)
  obtain res fa ev2 where
    p: "push (object_destructor (type_id T)) x r (m_finalizer_array z1) = (res, fa, ev2)"
    by (cases "push (object_destructor (type_id T)) x r (m_finalizer_array z1)") auto
  from al a1 p have res: "res = Inr ()" and px: "p = x"
    and z': "z' = z1\<lparr>m_finalizer_array := fa\<rparr>"
    and ev: "ev = ev1 @ ev2 @ [Construct (type_id T) x]"
    by (auto simp: allocate_def split: sum.splits if_splits)
  from allocate_align_frame [OF a1] have fr: "m_finalizer_array z1 = m_finalizer_array z"
    and c1: "finalizer_calls ev1 = []" by simp_all
  from ok fr have ok1: "finalizer_array_ok (m_finalizer_array z1)" by simp
  from p res have
    p': "push (object_destructor (type_id T)) x r (m_finalizer_array z1) = (Inr (), fa, ev2)"
    by simp
  note po = push_ok [OF ok1 p']
  show ?thesis using po c1 by (simp add: z' fr px ev finalizer_calls_def)
qed

text \<open>The state after a typed allocation whose constructor threw.\<close>
lemma allocate_ctor_throws:
  assumes ok: "finalizer_array_ok (m_finalizer_array z)"
    and a1: "allocate_align (sizeof T) c z = Some (x, z1, ev1)"
    and room: "m_tail (m_finalizer_array z) = m_end (m_finalizer_array z) \<longrightarrow> r \<noteq> nullptr"
  shows "\<exists>fa ev2. allocate T c r True z =
            Some (Inl ctor_exception,
                  undo_allocate (sizeof T) (z1\<lparr>m_finalizer_array := fa\<rparr>), ev1 @ ev2) \<and>
          finalizer_array_ok fa \<and> registered fa = registered (m_finalizer_array z) \<and>
          finalizer_calls ev2 = [] \<and> filter is_construct ev2 = []"
proof -
  from allocate_align_frame [OF a1] have fr: "m_finalizer_array z1 = m_finalizer_array z" by simp
  from room fr obtain fa ev2 where
    p: "push (object_destructor (type_id T)) x r (m_finalizer_array z1) = (Inr (), fa, ev2)"
    using push_succeeds [of "m_finalizer_array z1" r "object_destructor (type_id T)" x] by auto
  from ok fr have ok1: "finalizer_array_ok (m_finalizer_array z1)" by simp
  note pp = push_then_pop [OF ok1 p]
  have ev2: "finalizer_calls ev2 = []" by (rule push_ok(3) [OF ok1 p])
  have nc: "filter is_construct ev2 = []"
    using push_events [OF p] by simp
  have "allocate T c r True z =
      Some (Inl ctor_exception,
            undo_allocate (sizeof T) (z1\<lparr>m_finalizer_array := fa\<lparr>m_tail := m_tail fa - 1\<rparr>\<rparr>),
            ev1 @ ev2)"
    by (simp add: allocate_def a1 p pop_tail_def)
  with pp ev2 nc fr show ?thesis by auto
qed

lemma allocate_registry_fails:
  assumes al: "aligned (sizeof T)"
    and full: "m_tail (m_finalizer_array z) = m_end (m_finalizer_array z)"
    and reserved: "\<not> m_free (m_chunk_list z) < sizeof T \<or>
                   (c \<noteq> nullptr \<and> grow_loop (m_chunk_size z) (sizeof T) = Some sz)"
  shows "\<exists>z' ev.
           allocate T c nullptr th z = Some (Inl bad_alloc, z', ev) \<and>
           filter is_construct ev = [] \<and> finalizer_calls ev = [] \<and>
           m_finalizer_array z' = m_finalizer_array z \<and>
           m_chunk_size z' = m_chunk_size z \<and>
           (if m_free (m_chunk_list z) < sizeof T
            then m_chunk_list z' =
                   \<lparr>m_free = sz, m_ptr = c + sizeof_chunk,
                    m_head = Chunk c (sizeof_chunk + sz) (Some (m_head (m_chunk_list z)))\<rparr>
            else z' = z)"
proof -
  have sz: "align_size (sizeof T) = sizeof T" by (rule align_size_id [OF al])
  have p: "\<And>x. \<exists>ev2. push (object_destructor (type_id T)) x nullptr (m_finalizer_array z) =
             (Inl bad_alloc, m_finalizer_array z, ev2) \<and> finalizer_calls ev2 = [] \<and>
             filter is_construct ev2 = []"
    using full by (simp add: push_def push_expand_def Let_def finalizer_calls_def)
  show ?thesis
  proof (cases "m_free (m_chunk_list z) < sizeof T")
    case False
    have a1: "allocate_align (sizeof T) c z =
        Some (m_ptr (m_chunk_list z),
              z\<lparr>m_chunk_list := (m_chunk_list z)\<lparr>m_free := m_free (m_chunk_list z) - sizeof T,
                   m_ptr := m_ptr (m_chunk_list z) + sizeof T\<rparr>\<rparr>, [])"
      using allocate_no_align_fits [OF False, of c] by (simp add: allocate_align_def sz)
    from p [of "m_ptr (m_chunk_list z)"] obtain ev2 where
      p2: "push (object_destructor (type_id T)) (m_ptr (m_chunk_list z)) nullptr
             (m_finalizer_array z) = (Inl bad_alloc, m_finalizer_array z, ev2)"
      and q: "finalizer_calls ev2 = []" "filter is_construct ev2 = []" by blast
    show ?thesis
      using False q by (simp add: allocate_def a1 p2 undo_allocate_def)
  next
    case True
    with reserved have c: "c \<noteq> nullptr" and g: "grow_loop (m_chunk_size z) (sizeof T) = Some sz"
      by simp_all
    have a1: "allocate_align (sizeof T) c z =
        Some (c + sizeof_chunk,
           z\<lparr>m_chunk_list :=
               \<lparr>m_free = sz - sizeof T, m_ptr = c + sizeof_chunk + sizeof T,
                m_head = Chunk c (sizeof_chunk + sz) (Some (m_head (m_chunk_list z)))\<rparr>\<rparr>,
           [Malloc (sizeof_chunk + sz) c])"
      using allocate_no_align_grows [OF True g c] by (simp add: allocate_align_def sz)
    from p [of "c + sizeof_chunk"] obtain ev2 where
      p2: "push (object_destructor (type_id T)) (c + sizeof_chunk) nullptr
             (m_finalizer_array z) = (Inl bad_alloc, m_finalizer_array z, ev2)"
      and q: "finalizer_calls ev2 = []" "filter is_construct ev2 = []" by blast
    show ?thesis
      using True q by (simp add: allocate_def a1 p2 undo_allocate_def finalizer_calls_def)
  qed
qed

subsection \<open>The invariants are kept where the storage was reserved\<close>

text \<open>
  Construction, raw allocation, \<open>push_finalizer\<close>, \<open>clear\<close> and typed allocation (with
  its two failure paths) keep \<open>zone_ok\<close>, as long as the allocator supplies blocks that lie in
  the address space and, for typed allocation, \<open>allocate_align\<close> did not return \<open>nullptr\<close>.
\<close>

lemma unat_sizeof_chunk: "unat sizeof_chunk = 8"
  by (simp add: sizeof_chunk_def)

lemma unat_add_64: "unat (a :: 64 word) + unat b < 2 ^ 64 \<Longrightarrow> unat (a + b) = unat a + unat b"
  by (rule unat_add_lem [THEN iffD1]) simp

lemma supplied_chunk:
  assumes "supplied c sz"
  shows "unat (c + sizeof_chunk) = unat c + 8"
    and "unat (sizeof_chunk + sz) = 8 + unat sz"
    and "chunk_in_memory (Chunk c (sizeof_chunk + sz) nx)"
proof -
  from assms have b: "unat c + 8 + unat sz < 2 ^ 64"
    by (simp add: supplied_def unat_sizeof_chunk)
  then have "unat c + unat sizeof_chunk < 2 ^ 64" "unat sizeof_chunk + unat sz < 2 ^ 64"
    by (simp_all add: unat_sizeof_chunk)
  then have "unat (c + sizeof_chunk) = unat c + unat sizeof_chunk"
    "unat (sizeof_chunk + sz) = unat sizeof_chunk + unat sz"
    by (simp_all only: unat_add_64)
  then show 1: "unat (c + sizeof_chunk) = unat c + 8"
    and 2: "unat (sizeof_chunk + sz) = 8 + unat sz"
    by (simp_all add: unat_sizeof_chunk)
  from b 2 show "chunk_in_memory (Chunk c (sizeof_chunk + sz) nx)"
    by (simp add: chunk_in_memory_def)
qed

lemma zone_ctor_ok:
  assumes "supplied c chunk_size"
  shows "\<exists>z. zone_ctor chunk_size c = (Inr z, [Malloc (sizeof_chunk + chunk_size) c]) \<and> zone_ok z"
  using assms supplied_chunk [OF assms]
  by (simp add: zone_ctor_def chunk_list_ctor_def Let_def zone_ok_def chunk_list_ok_def
      supplied_def finalizer_array_init_def finalizer_array_ok_def registered_def unat_sizeof_chunk)

lemma grow_loop_reaches:
  assumes "grow_loop sz n = Some y"
  shows "n \<le> y"
  by (rule grow_loop.raw_induct [rotated, where P = "\<lambda>sz n y. n \<le> y", OF assms])
     (auto split: if_splits)

lemma allocate_no_align_ok:
  assumes ok: "zone_ok z"
    and run: "allocate_no_align n c z = Some (x, z', ev)"
    and alloc: "\<And>sz. grow_loop (m_chunk_size z) n = Some sz \<Longrightarrow> c \<noteq> nullptr \<Longrightarrow> supplied c sz"
  shows "zone_ok z'"
proof (cases "m_free (m_chunk_list z) < n")
  case False
  then have le: "unat n \<le> unat (m_free (m_chunk_list z))"
    by (simp add: word_less_nat_alt)
  from run have z': "z' = z\<lparr>m_chunk_list := (m_chunk_list z)
      \<lparr>m_free := m_free (m_chunk_list z) - n, m_ptr := m_ptr (m_chunk_list z) + n\<rparr>\<rparr>"
    by (auto simp: allocate_no_align_fits [OF False])
  from ok have inv: "unat (c_addr (m_head (m_chunk_list z))) + unat sizeof_chunk \<le> unat (m_ptr (m_chunk_list z))"
     "unat (m_ptr (m_chunk_list z)) + unat (m_free (m_chunk_list z)) =
        unat (c_addr (m_head (m_chunk_list z))) + unat (c_bytes (m_head (m_chunk_list z)))"
     "unat (c_addr (m_head (m_chunk_list z))) + unat (c_bytes (m_head (m_chunk_list z))) < 2 ^ 64"
    by (simp_all add: zone_ok_def chunk_list_ok_def chunk_in_memory_def)
  from inv le have "unat (m_ptr (m_chunk_list z)) + unat n < 2 ^ 64" by simp
  then have p: "unat (m_ptr (m_chunk_list z) + n) = unat (m_ptr (m_chunk_list z)) + unat n"
    by (rule unat_add_64)
  from False have f: "unat (m_free (m_chunk_list z) - n) = unat (m_free (m_chunk_list z)) - unat n"
    by (simp add: unat_sub not_less)
  show ?thesis
    using ok inv le by (simp add: z' zone_ok_def chunk_list_ok_def p f)
next
  case True
  from run True obtain sz where g: "grow_loop (m_chunk_size z) n = Some sz"
    by (auto simp: allocate_no_align_def allocate_expand_def Let_def split: option.splits)
  show ?thesis
  proof (cases "c = nullptr")
    case True
    with run \<open>m_free (m_chunk_list z) < n\<close> g ok show ?thesis
      by (simp add: allocate_no_align_fails)
  next
    case False
    note s = alloc [OF g False]
    note sc = supplied_chunk [OF s]
    from grow_loop_reaches [OF g] have le: "unat n \<le> unat sz" by (simp add: word_le_nat_alt)
    from run have z': "z' = z\<lparr>m_chunk_list :=
               \<lparr>m_free = sz - n, m_ptr = c + sizeof_chunk + n,
                m_head = Chunk c (sizeof_chunk + sz) (Some (m_head (m_chunk_list z)))\<rparr>\<rparr>"
      by (auto simp: allocate_no_align_grows [OF True g False])
    from s le have "unat (c + sizeof_chunk) + unat n < 2 ^ 64"
      by (simp add: sc(1) supplied_def unat_sizeof_chunk)
    then have "unat (c + sizeof_chunk + n) = unat (c + sizeof_chunk) + unat n"
      by (rule unat_add_64)
    then have p: "unat (c + sizeof_chunk + n) = unat c + 8 + unat n"
      by (simp add: sc(1))
    from grow_loop_reaches [OF g] have f: "unat (sz - n) = unat sz - unat n"
      by (simp add: unat_sub)
    show ?thesis
      using ok le sc(3) [of "Some (m_head (m_chunk_list z))"]
      by (simp add: z' zone_ok_def chunk_list_ok_def p f sc(2) unat_sizeof_chunk chunks_nonempty)
  qed
qed


lemma allocate_align_ok:
  assumes ok: "zone_ok z"
    and run: "allocate_align n c z = Some (x, z', ev)"
    and alloc: "\<And>sz. grow_loop (m_chunk_size z) (align_size n) = Some sz \<Longrightarrow> c \<noteq> nullptr \<Longrightarrow>
                  supplied c sz"
  shows "zone_ok z'"
  using ok run alloc unfolding allocate_align_def by (rule allocate_no_align_ok)

lemma clear_ok:
  assumes ok: "zone_ok z"
  shows "zone_ok (fst (clear z))"
proof -
  let ?t = "last (chunks (m_head (m_chunk_list z)))"
  have z': "fst (clear z) = z\<lparr>m_finalizer_array := (m_finalizer_array z)\<lparr>m_tail := 0\<rparr>,
        m_chunk_list := \<lparr>m_free = m_chunk_size z, m_ptr = c_addr ?t + sizeof_chunk,
                          m_head = Chunk (c_addr ?t) (c_bytes ?t) None\<rparr>\<rparr>"
    by (simp add: clear_def finalizer_array_clear_def chunk_list_clear_def free_but_last_chunks)
  from ok have t: "unat (c_addr ?t) + unat (c_bytes ?t) < 2 ^ 64"
    "unat (c_bytes ?t) = 8 + unat (m_chunk_size z)"
    by (simp_all add: zone_ok_def chunk_in_memory_def unat_sizeof_chunk)
  then have "unat (c_addr ?t) + unat sizeof_chunk < 2 ^ 64"
    by (simp add: unat_sizeof_chunk)
  then have "unat (c_addr ?t + sizeof_chunk) = unat (c_addr ?t) + unat sizeof_chunk"
    by (rule unat_add_64)
  then have p: "unat (c_addr ?t + sizeof_chunk) = unat (c_addr ?t) + 8"
    by (simp add: unat_sizeof_chunk)
  from ok have fa: "finalizer_array_ok ((m_finalizer_array z)\<lparr>m_tail := 0\<rparr>)"
    by (simp add: zone_ok_def finalizer_array_ok_def registered_def)
  show ?thesis
    using t fa
    by (simp add: z' zone_ok_def chunk_list_ok_def chunk_in_memory_def p unat_sizeof_chunk)
qed

lemma push_finalizer_ok:
  assumes ok: "zone_ok z"
    and run: "push_finalizer func data r z = (res, z', ev)"
  shows "zone_ok z'"
proof -
  obtain pr fa ev1 where p: "push func data r (m_finalizer_array z) = (pr, fa, ev1)"
    by (cases "push func data r (m_finalizer_array z)") auto
  from ok have fo: "finalizer_array_ok (m_finalizer_array z)" by (simp add: zone_ok_def)
  have "finalizer_array_ok fa"
  proof (cases pr)
    case (Inl e)
    with p push_fail [of func data r "m_finalizer_array z" e fa ev1] fo show ?thesis by simp
  next
    case (Inr u)
    with p push_ok(1) [OF fo, of func data r u fa ev1] show ?thesis by simp
  qed
  moreover from run p have "z' = z\<lparr>m_finalizer_array := fa\<rparr>"
    by (auto simp: push_finalizer_def)
  ultimately show ?thesis using ok by (simp add: zone_ok_def)
qed


lemma allocate_no_align_reserves:
  assumes ok: "zone_ok z"
    and run: "allocate_no_align n c z = Some (x, z1, ev)"
    and alloc: "\<And>sz. grow_loop (m_chunk_size z) n = Some sz \<Longrightarrow> c \<noteq> nullptr \<Longrightarrow> supplied c sz"
    and reserved: "m_free (m_chunk_list z) < n \<longrightarrow> c \<noteq> nullptr"
  shows "unat (c_addr (m_head (m_chunk_list z1))) + 8 \<le> unat x \<and>
         unat (m_ptr (m_chunk_list z1)) = unat x + unat n"
proof (cases "m_free (m_chunk_list z) < n")
  case False
  then have le: "unat n \<le> unat (m_free (m_chunk_list z))"
    by (simp add: word_less_nat_alt)
  from run have z1: "z1 = z\<lparr>m_chunk_list := (m_chunk_list z)
      \<lparr>m_free := m_free (m_chunk_list z) - n, m_ptr := m_ptr (m_chunk_list z) + n\<rparr>\<rparr>"
    and x: "x = m_ptr (m_chunk_list z)"
    by (auto simp: allocate_no_align_fits [OF False])
  from ok have inv: "unat (c_addr (m_head (m_chunk_list z))) + 8 \<le> unat (m_ptr (m_chunk_list z))"
     "unat (m_ptr (m_chunk_list z)) + unat (m_free (m_chunk_list z)) =
        unat (c_addr (m_head (m_chunk_list z))) + unat (c_bytes (m_head (m_chunk_list z)))"
     "unat (c_addr (m_head (m_chunk_list z))) + unat (c_bytes (m_head (m_chunk_list z))) < 2 ^ 64"
    by (simp_all add: zone_ok_def chunk_list_ok_def chunk_in_memory_def unat_sizeof_chunk)
  from inv le have "unat (m_ptr (m_chunk_list z)) + unat n < 2 ^ 64" by simp
  then have p: "unat (m_ptr (m_chunk_list z) + n) = unat (m_ptr (m_chunk_list z)) + unat n"
    by (rule unat_add_64)
  show ?thesis using inv(1) by (simp add: z1 x p)
next
  case True
  with reserved have cn: "c \<noteq> nullptr" by simp
  from run True obtain sz where g: "grow_loop (m_chunk_size z) n = Some sz"
    by (auto simp: allocate_no_align_def allocate_expand_def Let_def split: option.splits)
  note s = alloc [OF g cn]
  note sc = supplied_chunk [OF s]
  from grow_loop_reaches [OF g] have le: "unat n \<le> unat sz" by (simp add: word_le_nat_alt)
  from run have z1: "z1 = z\<lparr>m_chunk_list :=
             \<lparr>m_free = sz - n, m_ptr = c + sizeof_chunk + n,
              m_head = Chunk c (sizeof_chunk + sz) (Some (m_head (m_chunk_list z)))\<rparr>\<rparr>"
    and x: "x = c + sizeof_chunk"
    by (auto simp: allocate_no_align_grows [OF True g cn])
  from s le have "unat (c + sizeof_chunk) + unat n < 2 ^ 64"
    by (simp add: sc(1) supplied_def unat_sizeof_chunk)
  then have "unat (c + sizeof_chunk + n) = unat (c + sizeof_chunk) + unat n"
    by (rule unat_add_64)
  then show ?thesis by (simp add: z1 x sc(1))
qed

lemma undo_allocate_ok:
  assumes ok: "zone_ok z1"
    and x: "unat (c_addr (m_head (m_chunk_list z1))) + 8 \<le> unat x"
    and p: "unat (m_ptr (m_chunk_list z1)) = unat x + unat r"
    and le: "s \<le> r"
  shows "zone_ok (undo_allocate s z1)"
proof -
  from le have sr: "unat s \<le> unat r" by (simp add: word_le_nat_alt)
  from ok have inv:
     "unat (m_ptr (m_chunk_list z1)) + unat (m_free (m_chunk_list z1)) =
        unat (c_addr (m_head (m_chunk_list z1))) + unat (c_bytes (m_head (m_chunk_list z1)))"
     "unat (c_addr (m_head (m_chunk_list z1))) + unat (c_bytes (m_head (m_chunk_list z1))) < 2 ^ 64"
    by (simp_all add: zone_ok_def chunk_list_ok_def chunk_in_memory_def)
  from p sr have "s \<le> m_ptr (m_chunk_list z1)" by (simp add: word_le_nat_alt)
  then have a: "unat (m_ptr (m_chunk_list z1) - s) = unat (m_ptr (m_chunk_list z1)) - unat s"
    by (rule unat_sub)
  from inv p sr have "unat (m_free (m_chunk_list z1)) + unat s < 2 ^ 64" by simp
  then have b: "unat (m_free (m_chunk_list z1) + s) = unat (m_free (m_chunk_list z1)) + unat s"
    by (rule unat_add_64)
  show ?thesis
    using ok x p sr inv
    by (simp add: undo_allocate_def zone_ok_def chunk_list_ok_def a b unat_sizeof_chunk) linarith
qed

lemma allocate_ok:
  assumes ok: "zone_ok z"
    and run: "allocate T c r th z = Some (res, z', ev)"
    and alloc: "\<And>sz. grow_loop (m_chunk_size z) (align_size (sizeof T)) = Some sz \<Longrightarrow>
                  c \<noteq> nullptr \<Longrightarrow> supplied c sz"
    and reserved: "m_free (m_chunk_list z) < align_size (sizeof T) \<longrightarrow> c \<noteq> nullptr"
    and nowrap: "sizeof T \<le> align_size (sizeof T)"
  shows "zone_ok z'"
proof -
  from run obtain x z1 ev1 where a1: "allocate_align (sizeof T) c z = Some (x, z1, ev1)"
    by (auto simp: allocate_def split: option.splits)
  have ok1: "zone_ok z1"
    using ok a1 alloc by (rule allocate_align_ok)
  have rs: "unat (c_addr (m_head (m_chunk_list z1))) + 8 \<le> unat x \<and>
         unat (m_ptr (m_chunk_list z1)) = unat x + unat (align_size (sizeof T))"
    using ok a1 [unfolded allocate_align_def] alloc reserved by (rule allocate_no_align_reserves)
  obtain pr fa ev2 where
    p: "push (object_destructor (type_id T)) x r (m_finalizer_array z1) = (pr, fa, ev2)"
    by (cases "push (object_destructor (type_id T)) x r (m_finalizer_array z1)") auto
  from ok1 have fo: "finalizer_array_ok (m_finalizer_array z1)" by (simp add: zone_ok_def)
  show ?thesis
  proof (cases pr)
    case (Inl e)
    with p push_fail [of "object_destructor (type_id T)" x r "m_finalizer_array z1" e fa ev2]
    have "fa = m_finalizer_array z1" by simp
    with run a1 p Inl have "z' = undo_allocate (sizeof T) z1"
      by (auto simp: allocate_def)
    then show ?thesis
      using undo_allocate_ok [OF ok1 _ _ nowrap] rs by blast
  next
    case (Inr u)
    with p have ps: "push (object_destructor (type_id T)) x r (m_finalizer_array z1) = (Inr u, fa, ev2)"
      by simp
    show ?thesis
    proof (cases th)
      case False
      with run a1 ps have "z' = z1\<lparr>m_finalizer_array := fa\<rparr>"
        by (auto simp: allocate_def)
      with ok1 push_ok(1) [OF fo ps] show ?thesis by (simp add: zone_ok_def)
    next
      case True
      let ?z2 = "z1\<lparr>m_finalizer_array := fa\<lparr>m_tail := m_tail fa - 1\<rparr>\<rparr>"
      from True run a1 ps have z': "z' = undo_allocate (sizeof T) ?z2"
        by (auto simp: allocate_def pop_tail_def)
      from ok1 push_then_pop(1) [OF fo ps] have ok2: "zone_ok ?z2" by (simp add: zone_ok_def)
      from rs have "unat (c_addr (m_head (m_chunk_list ?z2))) + 8 \<le> unat x"
        "unat (m_ptr (m_chunk_list ?z2)) = unat x + unat (align_size (sizeof T))"
        by simp_all
      from undo_allocate_ok [OF ok2 this nowrap] show ?thesis by (simp add: z')
    qed
  qed
qed

lemma push_finalizer_unique_ptr_ok:
  assumes ok: "zone_ok z"
    and run: "push_finalizer_unique_ptr T obj r z = (res, z', ev)"
  shows "zone_ok z'"
proof -
  obtain pr fa ev1 where
    p: "push (object_destructor (type_id T)) obj r (m_finalizer_array z) = (pr, fa, ev1)"
    by (cases "push (object_destructor (type_id T)) obj r (m_finalizer_array z)") auto
  from ok have fo: "finalizer_array_ok (m_finalizer_array z)" by (simp add: zone_ok_def)
  have "finalizer_array_ok fa"
  proof (cases pr)
    case (Inl e)
    with p push_fail [of "object_destructor (type_id T)" obj r "m_finalizer_array z" e fa ev1] fo
    show ?thesis by simp
  next
    case (Inr u)
    with p push_ok(1) [OF fo, of "object_destructor (type_id T)" obj r u fa ev1]
    show ?thesis by simp
  qed
  moreover from run p have "z' = z\<lparr>m_finalizer_array := fa\<rparr>"
    by (cases pr) (auto simp: push_finalizer_unique_ptr_def)
  ultimately show ?thesis using ok by (simp add: zone_ok_def)
qed

subsection \<open>Alignment of a new and of a cleared arena\<close>

lemma zone_ctor_aligned:
  "aligned c \<Longrightarrow> zone_ctor chunk_size c = (Inr z, ev) \<Longrightarrow> aligned (m_ptr (m_chunk_list z))"
  by (auto simp: zone_ctor_def chunk_list_ctor_def Let_def aligned_add aligned_sizeof_chunk
      split: if_splits)

lemma clear_aligned:
  "aligned (c_addr (last (chunks (m_head (m_chunk_list z))))) \<Longrightarrow>
   aligned (m_ptr (m_chunk_list (fst (clear z))))"
  by (simp add: clear_def finalizer_array_clear_def chunk_list_clear_def free_but_last_chunks
      aligned_add aligned_sizeof_chunk)

subsection \<open>Evaluation on concrete arenas\<close>

lemma replicate_4: "replicate 4 x = [x, x, x, x]"
  by (simp add: numeral_eq_Suc)

lemma call_loop_numeral:
  "call_loop arr (numeral k) =
     invoke_slot arr (pred_numeral k) # call_loop arr (pred_numeral k)"
  by (simp add: numeral_eq_Suc)

lemmas eval_defs =
  allocate_def allocate_align_def align_size_def allocate_no_align_def allocate_expand_def
  push_def push_expand_def push_finalizer_def push_finalizer_unique_ptr_def
  undo_allocate_def pop_tail_def finalizer_array_init_def
  clear_def finalizer_array_clear_def chunk_list_clear_def call_def invoke_slot_def
  destroy_def zone_dtor_def finalizer_array_dtor_def chunk_list_dtor_def
  create_def zone_ctor_def chunk_list_ctor_def swap_def std_swap_def
  MSGPACK_ZONE_ALIGN_def sizeof_finalizer_def sizeof_chunk_def sizeof_zone_def nullptr_def
  finalizer_calls_def replicate_4 call_loop_numeral Let_def

lemma grow_loop_8_16: "grow_loop 8 16 = Some 16"
  by (simp add: grow_loop_step grow_loop_done)

lemma ex_allocate_A:
  "allocate ex_TA nullptr 0x3000 False ex_zone64 =
     Some (Inr 0x1008, ex_zA, [Realloc 0 64 0x3000, Construct 1 0x1008])"
  by (simp add: eval_defs ex_TA_def ex_zone64_def ex_zA_def)

lemma ex_allocate_B:
  "allocate ex_TB nullptr nullptr False ex_zA = Some (Inr 0x1010, ex_zB, [Construct 2 0x1010])"
  by (simp add: eval_defs ex_TB_def ex_zA_def ex_zB_def)

lemma ex_allocate_C:
  "allocate ex_TC nullptr nullptr False ex_zB = Some (Inr 0x1020, ex_zC, [Construct 3 0x1020])"
  by (simp add: eval_defs ex_TC_def ex_zB_def ex_zC_def)

lemma ex_zone64_ok: "finalizer_array_ok (m_finalizer_array ex_zone64)"
  by (simp add: ex_zone64_def finalizer_array_init_ok)

lemma ex_zone8_ok: "finalizer_array_ok (m_finalizer_array ex_zone8)"
  by (simp add: ex_zone8_def finalizer_array_init_ok)

text \<open>
  A constructor that throws for a type of one byte: \<open>allocate_align\<close> reserved 4 bytes and
  \<open>undo_allocate(sizeof(T))\<close> gives 1 back, so \<open>m_ptr\<close> is left at \<open>0x100B\<close> and \<open>m_free\<close> at 5.
\<close>
lemma ex_allocate_odd_size_throws:
  "allocate \<lparr>type_id = 9, sizeof = 1\<rparr> nullptr 0x3000 True ex_zone8 =
     Some (Inl ctor_exception,
           ex_zone8\<lparr>m_chunk_list := \<lparr>m_free = 5, m_ptr = 0x100B,
                                       m_head = Chunk 0x1000 16 None\<rparr>,
                    m_finalizer_array :=
                      \<lparr>m_tail = 0, m_end = 4, m_array = 0x3000,
                       slots = [Some \<lparr>m_func = object_destructor 9, m_data = 0x1008\<rparr>,
                                None, None, None]\<rparr>\<rparr>,
           [Realloc 0 64 0x3000])"
  by (simp add: eval_defs ex_zone8_def)

text \<open>
  A typed allocation that gets no chunk but whose registry grows: the finalizer of an object
  at \<open>nullptr\<close> stays registered.
\<close>
lemma ex_allocate_null_registers:
  "allocate ex_T16 nullptr 0x3000 False ex_zone8 =
     Some (Inr nullptr,
           ex_zone8\<lparr>m_finalizer_array :=
                      \<lparr>m_tail = 1, m_end = 4, m_array = 0x3000,
                       slots = [Some \<lparr>m_func = object_destructor 7, m_data = 0\<rparr>,
                                None, None, None]\<rparr>\<rparr>,
           [Malloc 24 0, Realloc 0 64 0x3000, Construct 7 0])"
  by (simp add: eval_defs grow_loop_8_16 ex_T16_def ex_zone8_def)

section \<open>The claims\<close>

text \<open>
  C1. Whatever the arena (with a well-formed registry), after the successful typed
  allocations of A, then B, then C, \<open>clear()\<close> calls the destructor of C at the address of C,
  then that of B, then that of A, and after them what \<open>clear()\<close> would have called before the
  three allocations; \<open>destroy\<close> calls the same, in the same order. The allocations themselves
  call no finalizer. After \<open>clear()\<close>, a second \<open>clear()\<close> and \<open>destroy\<close> call nothing: each
  destructor has run exactly once.
\<close>
theorem finalizers_run_in_reverse_order:
  assumes ok: "finalizer_array_ok (m_finalizer_array z)"
    and A: "allocate TA cA rA thA z = Some (Inr pA, zA, evA)"
    and B: "allocate TB cB rB thB zA = Some (Inr pB, zB, evB)"
    and C: "allocate TC cC rC thC zB = Some (Inr pC, zC, evC)"
  shows "finalizer_calls (snd (clear zC)) =
           [Invoke (object_destructor (type_id TC)) pC,
            Invoke (object_destructor (type_id TB)) pB,
            Invoke (object_destructor (type_id TA)) pA] @ finalizer_calls (snd (clear z)) \<and>
         finalizer_calls (destroy (h, zC)) =
           [Invoke (object_destructor (type_id TC)) pC,
            Invoke (object_destructor (type_id TB)) pB,
            Invoke (object_destructor (type_id TA)) pA] @ finalizer_calls (destroy (h, z)) \<and>
         finalizer_calls (evA @ evB @ evC) = [] \<and>
         finalizer_calls (snd (clear (fst (clear zC)))) = [] \<and>
         finalizer_calls (destroy (h, fst (clear zC))) = []"
proof -
  note sA = allocate_success [OF ok A]
  then have okA: "finalizer_array_ok (m_finalizer_array zA)" by simp
  note sB = allocate_success [OF okA B]
  then have okB: "finalizer_array_ok (m_finalizer_array zB)" by simp
  note sC = allocate_success [OF okB C]
  then have okC: "finalizer_array_ok (m_finalizer_array zC)" by simp
  have regs: "registered (m_finalizer_array zC) =
      registered (m_finalizer_array z) @
        [Some \<lparr>m_func = object_destructor (type_id TA), m_data = pA\<rparr>,
         Some \<lparr>m_func = object_destructor (type_id TB), m_data = pB\<rparr>,
         Some \<lparr>m_func = object_destructor (type_id TC), m_data = pC\<rparr>]"
    using sA sB sC by simp
  have callC: "call (m_finalizer_array zC) =
      [Invoke (object_destructor (type_id TC)) pC,
       Invoke (object_destructor (type_id TB)) pB,
       Invoke (object_destructor (type_id TA)) pA] @ call (m_finalizer_array z)"
    by (simp add: call_registered [OF okC] call_registered [OF ok] regs entry_call_def)
  have again: "call (m_finalizer_array (fst (clear zC))) = []"
    by (simp add: call_def clear_registry)
  have quiet: "finalizer_calls (evA @ evB @ evC) = []"
    using sA sB sC by (simp add: finalizer_calls_def)
  show ?thesis
    by (simp only: clear_calls destroy_calls callC again quiet simp_thms)
qed

theorem finalizers_run_in_reverse_order_witness:
  "finalizer_calls (snd (clear ex_zC)) =
     [Invoke (object_destructor 3) 0x1020, Invoke (object_destructor 2) 0x1010,
      Invoke (object_destructor 1) 0x1008] \<and>
   finalizer_calls (destroy (0x800, ex_zC)) =
     [Invoke (object_destructor 3) 0x1020, Invoke (object_destructor 2) 0x1010,
      Invoke (object_destructor 1) 0x1008] \<and>
   finalizer_calls (snd (clear (fst (clear ex_zC)))) = [] \<and>
   finalizer_calls (destroy (0x800, fst (clear ex_zC))) = []"
proof -
  have e: "finalizer_calls (snd (clear ex_zone64)) = []"
    "finalizer_calls (destroy (0x800, ex_zone64)) = []"
    by (simp_all add: eval_defs ex_zone64_def)
  from finalizers_run_in_reverse_order
         [OF ex_zone64_ok ex_allocate_A ex_allocate_B ex_allocate_C, of "0x800"]
  show ?thesis
    by (simp add: e ex_TA_def ex_TB_def ex_TC_def)
qed

text \<open>
  C2, as amended. A typed allocation \<open>allocate<T>\<close> whose storage was reserved (from the head
  chunk, or from a new chunk that the allocator supplied), whose finalizer was registered,
  and whose constructor throws, for a type whose size is a multiple of the alignment:
  the call returns the constructor's failure; it calls no finalizer and leaves no object;
  the registered entries are those from before the call, so a later \<open>clear()\<close> calls exactly
  what it would have called before. When the storage came from the head chunk, \<open>m_ptr\<close> and
  \<open>m_free\<close> have their values from before the call. When a new chunk was taken, it stays the
  head, with \<open>m_ptr\<close> at its start and \<open>m_free\<close> its whole size.
\<close>
theorem ctor_failure_rolls_back:
  assumes ok: "finalizer_array_ok (m_finalizer_array z)"
    and al: "aligned (sizeof T)"
    and reserved: "\<not> m_free (m_chunk_list z) < sizeof T \<or>
                   (c \<noteq> nullptr \<and> grow_loop (m_chunk_size z) (sizeof T) = Some sz)"
    and room: "m_tail (m_finalizer_array z) = m_end (m_finalizer_array z) \<longrightarrow> r \<noteq> nullptr"
  shows "\<exists>z' ev.
           allocate T c r True z = Some (Inl ctor_exception, z', ev) \<and>
           finalizer_calls ev = [] \<and> filter is_construct ev = [] \<and>
           finalizer_array_ok (m_finalizer_array z') \<and>
           registered (m_finalizer_array z') = registered (m_finalizer_array z) \<and>
           finalizer_calls (snd (clear z')) = finalizer_calls (snd (clear z)) \<and>
           m_chunk_size z' = m_chunk_size z \<and>
           (if m_free (m_chunk_list z) < sizeof T
            then m_chunk_list z' =
                   \<lparr>m_free = sz, m_ptr = c + sizeof_chunk,
                    m_head = Chunk c (sizeof_chunk + sz) (Some (m_head (m_chunk_list z)))\<rparr>
            else m_chunk_list z' = m_chunk_list z)"
proof -
  have sz: "align_size (sizeof T) = sizeof T" by (rule align_size_id [OF al])
  show ?thesis
  proof (cases "m_free (m_chunk_list z) < sizeof T")
    case False
    have a1: "allocate_align (sizeof T) c z =
        Some (m_ptr (m_chunk_list z),
              z\<lparr>m_chunk_list := (m_chunk_list z)\<lparr>m_free := m_free (m_chunk_list z) - sizeof T,
                   m_ptr := m_ptr (m_chunk_list z) + sizeof T\<rparr>\<rparr>, [])"
      using allocate_no_align_fits [OF False, of c] by (simp add: allocate_align_def sz)
    from allocate_ctor_throws [OF ok a1 room] obtain fa ev2 where
      r: "allocate T c r True z =
            Some (Inl ctor_exception,
                  undo_allocate (sizeof T)
                    (z\<lparr>m_chunk_list := (m_chunk_list z)
                          \<lparr>m_free := m_free (m_chunk_list z) - sizeof T,
                           m_ptr := m_ptr (m_chunk_list z) + sizeof T\<rparr>,
                       m_finalizer_array := fa\<rparr>),
                  [] @ ev2)"
      and f: "finalizer_array_ok fa" "registered fa = registered (m_finalizer_array z)"
        "finalizer_calls ev2 = []" "filter is_construct ev2 = []"
      by auto
    show ?thesis
      using False f ok
      by (simp add: r undo_allocate_def clear_calls_registered)
  next
    case True
    with reserved have c: "c \<noteq> nullptr" and g: "grow_loop (m_chunk_size z) (sizeof T) = Some sz"
      by simp_all
    have a1: "allocate_align (sizeof T) c z =
        Some (c + sizeof_chunk,
           z\<lparr>m_chunk_list :=
               \<lparr>m_free = sz - sizeof T, m_ptr = c + sizeof_chunk + sizeof T,
                m_head = Chunk c (sizeof_chunk + sz) (Some (m_head (m_chunk_list z)))\<rparr>\<rparr>,
           [Malloc (sizeof_chunk + sz) c])"
      using allocate_no_align_grows [OF True g c] by (simp add: allocate_align_def sz)
    from allocate_ctor_throws [OF ok a1 room] obtain fa ev2 where
      r: "allocate T c r True z =
            Some (Inl ctor_exception,
                  undo_allocate (sizeof T)
                    (z\<lparr>m_chunk_list :=
                         \<lparr>m_free = sz - sizeof T, m_ptr = c + sizeof_chunk + sizeof T,
                          m_head = Chunk c (sizeof_chunk + sz) (Some (m_head (m_chunk_list z)))\<rparr>,
                       m_finalizer_array := fa\<rparr>),
                  [Malloc (sizeof_chunk + sz) c] @ ev2)"
      and f: "finalizer_array_ok fa" "registered fa = registered (m_finalizer_array z)"
        "finalizer_calls ev2 = []" "filter is_construct ev2 = []"
      by auto
    have q: "finalizer_calls ([Malloc (sizeof_chunk + sz) c] @ ev2) = []"
      using f(3) by (simp add: finalizer_calls_def)
    have nc: "filter is_construct ([Malloc (sizeof_chunk + sz) c] @ ev2) = []"
      using f(4) by simp
    show ?thesis
      using True f(1,2) ok q nc
      by (simp add: r undo_allocate_def clear_calls_registered del: append.simps)
  qed
qed

theorem ctor_failure_rolls_back_witness:
  "\<exists>z' ev.
     allocate ex_TB nullptr nullptr True ex_zA = Some (Inl ctor_exception, z', ev) \<and>
     finalizer_calls ev = [] \<and>
     registered (m_finalizer_array z') = registered (m_finalizer_array ex_zA) \<and>
     finalizer_calls (snd (clear z')) = [Invoke (object_destructor 1) 0x1008] \<and>
     m_chunk_list z' = m_chunk_list ex_zA"
proof -
  have ok: "finalizer_array_ok (m_finalizer_array ex_zA)"
    by (simp add: ex_zA_def finalizer_array_ok_def registered_def)
  have al: "aligned (sizeof ex_TB)"
    by (simp add: ex_TB_def aligned_def MSGPACK_ZONE_ALIGN_def)
  have reserved: "\<not> m_free (m_chunk_list ex_zA) < sizeof ex_TB \<or>
      (nullptr \<noteq> nullptr \<and> grow_loop (m_chunk_size ex_zA) (sizeof ex_TB) = Some 0)"
    by (simp add: ex_zA_def ex_TB_def)
  have room: "m_tail (m_finalizer_array ex_zA) = m_end (m_finalizer_array ex_zA) \<longrightarrow>
      nullptr \<noteq> nullptr"
    by (simp add: ex_zA_def)
  have cl: "finalizer_calls (snd (clear ex_zA)) = [Invoke (object_destructor 1) 0x1008]"
    by (simp add: eval_defs ex_zA_def)
  have fits: "\<not> m_free (m_chunk_list ex_zA) < sizeof ex_TB"
    by (simp add: ex_zA_def ex_TB_def)
  from ctor_failure_rolls_back [OF ok al reserved room] show ?thesis
    by (simp only: cl fits if_False) blast
qed

text \<open>
  The claim C2 as first stated fails where the allocation took a new chunk: \<open>zone(8)\<close>,
  \<open>allocate<T>\<close> with \<open>sizeof(T) = 16\<close>, the constructor throws. Before the call \<open>m_ptr\<close> is
  \<open>0x1008\<close> and \<open>m_free\<close> is 8; after it they are \<open>0x2008\<close> and 16.
\<close>
theorem ctor_failure_after_growth_counterexample:
  "allocate ex_T16 0x2000 0x3000 True ex_zone8 =
     Some (Inl ctor_exception, ex_zone8_thrown, [Malloc 24 0x2000, Realloc 0 64 0x3000]) \<and>
   m_ptr (m_chunk_list ex_zone8) = 0x1008 \<and> m_ptr (m_chunk_list ex_zone8_thrown) = 0x2008 \<and>
   m_free (m_chunk_list ex_zone8) = 8 \<and> m_free (m_chunk_list ex_zone8_thrown) = 16"
  by (simp add: eval_defs grow_loop_8_16 ex_T16_def ex_zone8_def ex_zone8_thrown_def)

text \<open>
  C3, as amended. When the system allocator cannot supply a block:
  a raw allocation (\<open>allocate_no_align\<close>, \<open>allocate_align\<close>) that needs a new chunk, for a
  size that some doubling of the chunk size reaches below \<open>2 ^ 64\<close>, returns \<open>nullptr\<close>
  after the one failed request and leaves the arena as it was;
  \<open>push_finalizer\<close> on a full registry throws \<open>bad_alloc\<close>, calls nothing and leaves the
  arena as it was;
  a typed allocation whose storage was reserved (from the head chunk, or from a new chunk
  that the allocator supplied) and whose registry cannot grow, for a type whose size is a
  multiple of the alignment, throws \<open>bad_alloc\<close>, runs no constructor, calls no finalizer and
  leaves the registry as it was; the chunk list is as it was when the storage came from the
  head chunk, and when a new chunk was taken that chunk stays the head, with \<open>m_ptr\<close> at its
  start and \<open>m_free\<close> its whole size.
\<close>
theorem out_of_memory_leaves_state:
  "(m_free (m_chunk_list z) < n \<and>
    unat n \<le> unat (m_chunk_size z) * 2 ^ k \<and> unat (m_chunk_size z) * 2 ^ k < 2 ^ 64 \<longrightarrow>
      (\<exists>j\<le>k. allocate_no_align n nullptr z =
                Some (nullptr, z,
                      [Malloc (sizeof_chunk + m_chunk_size z * 2 ^ j) nullptr]))) \<and>
   (m_free (m_chunk_list z) < align_size n \<and>
    unat (align_size n) \<le> unat (m_chunk_size z) * 2 ^ k \<and>
    unat (m_chunk_size z) * 2 ^ k < 2 ^ 64 \<longrightarrow>
      (\<exists>j\<le>k. allocate_align n nullptr z =
                Some (nullptr, z,
                      [Malloc (sizeof_chunk + m_chunk_size z * 2 ^ j) nullptr]))) \<and>
   (m_tail (m_finalizer_array z) = m_end (m_finalizer_array z) \<longrightarrow>
      (\<exists>ev. push_finalizer func data nullptr z = (Inl bad_alloc, z, ev) \<and>
            finalizer_calls ev = [])) \<and>
   (aligned (sizeof T) \<and> m_tail (m_finalizer_array z) = m_end (m_finalizer_array z) \<and>
    (\<not> m_free (m_chunk_list z) < sizeof T \<or>
       (c \<noteq> nullptr \<and> grow_loop (m_chunk_size z) (sizeof T) = Some sz)) \<longrightarrow>
      (\<exists>z' ev.
         allocate T c nullptr th z = Some (Inl bad_alloc, z', ev) \<and>
         filter is_construct ev = [] \<and> finalizer_calls ev = [] \<and>
         m_finalizer_array z' = m_finalizer_array z \<and>
         m_chunk_size z' = m_chunk_size z \<and>
         (if m_free (m_chunk_list z) < sizeof T
          then m_chunk_list z' =
                 \<lparr>m_free = sz, m_ptr = c + sizeof_chunk,
                  m_head = Chunk c (sizeof_chunk + sz) (Some (m_head (m_chunk_list z)))\<rparr>
          else z' = z)))"
proof (intro conjI impI)
  assume h: "m_free (m_chunk_list z) < n \<and>
    unat n \<le> unat (m_chunk_size z) * 2 ^ k \<and> unat (m_chunk_size z) * 2 ^ k < 2 ^ 64"
  then have less: "m_free (m_chunk_list z) < n"
    and reach: "unat n \<le> unat (m_chunk_size z) * 2 ^ k"
    and nowrap: "unat (m_chunk_size z) * 2 ^ k < 2 ^ 64"
    by blast+
  from grow_loop_doubles [OF reach nowrap] obtain j where j: "j \<le> k"
    and g: "grow_loop (m_chunk_size z) n = Some (m_chunk_size z * 2 ^ j)"
    by blast
  from j allocate_no_align_fails [OF less g]
  show "\<exists>j\<le>k. allocate_no_align n nullptr z =
          Some (nullptr, z, [Malloc (sizeof_chunk + m_chunk_size z * 2 ^ j) nullptr])"
    by blast
next
  assume h: "m_free (m_chunk_list z) < align_size n \<and>
    unat (align_size n) \<le> unat (m_chunk_size z) * 2 ^ k \<and>
    unat (m_chunk_size z) * 2 ^ k < 2 ^ 64"
  then have less: "m_free (m_chunk_list z) < align_size n"
    and reach: "unat (align_size n) \<le> unat (m_chunk_size z) * 2 ^ k"
    and nowrap: "unat (m_chunk_size z) * 2 ^ k < 2 ^ 64"
    by blast+
  from grow_loop_doubles [OF reach nowrap] obtain j where j: "j \<le> k"
    and g: "grow_loop (m_chunk_size z) (align_size n) = Some (m_chunk_size z * 2 ^ j)"
    by blast
  from j allocate_no_align_fails [OF less g]
  show "\<exists>j\<le>k. allocate_align n nullptr z =
          Some (nullptr, z, [Malloc (sizeof_chunk + m_chunk_size z * 2 ^ j) nullptr])"
    unfolding allocate_align_def by blast
next
  assume "m_tail (m_finalizer_array z) = m_end (m_finalizer_array z)"
  then show "\<exists>ev. push_finalizer func data nullptr z = (Inl bad_alloc, z, ev) \<and>
                  finalizer_calls ev = []"
    by (rule push_finalizer_fails)
next
  assume h: "aligned (sizeof T) \<and> m_tail (m_finalizer_array z) = m_end (m_finalizer_array z) \<and>
    (\<not> m_free (m_chunk_list z) < sizeof T \<or>
       (c \<noteq> nullptr \<and> grow_loop (m_chunk_size z) (sizeof T) = Some sz))"
  then have a: "aligned (sizeof T)"
    and f: "m_tail (m_finalizer_array z) = m_end (m_finalizer_array z)"
    and r: "\<not> m_free (m_chunk_list z) < sizeof T \<or>
       (c \<noteq> nullptr \<and> grow_loop (m_chunk_size z) (sizeof T) = Some sz)"
    by blast+
  show "\<exists>z' ev.
         allocate T c nullptr th z = Some (Inl bad_alloc, z', ev) \<and>
         filter is_construct ev = [] \<and> finalizer_calls ev = [] \<and>
         m_finalizer_array z' = m_finalizer_array z \<and>
         m_chunk_size z' = m_chunk_size z \<and>
         (if m_free (m_chunk_list z) < sizeof T
          then m_chunk_list z' =
                 \<lparr>m_free = sz, m_ptr = c + sizeof_chunk,
                  m_head = Chunk c (sizeof_chunk + sz) (Some (m_head (m_chunk_list z)))\<rparr>
          else z' = z)"
    by (rule allocate_registry_fails [OF a f r])
qed

theorem out_of_memory_leaves_state_witness:
  "(\<exists>j\<le>1. allocate_no_align 16 nullptr ex_zone8 =
            Some (nullptr, ex_zone8, [Malloc (8 + 8 * 2 ^ j) nullptr])) \<and>
   (\<exists>j\<le>1. allocate_align 16 nullptr ex_zone8 =
            Some (nullptr, ex_zone8, [Malloc (8 + 8 * 2 ^ j) nullptr])) \<and>
   allocate_no_align 16 nullptr ex_zone8 = Some (nullptr, ex_zone8, [Malloc 24 nullptr]) \<and>
   allocate_align 16 nullptr ex_zone8 = Some (nullptr, ex_zone8, [Malloc 24 nullptr]) \<and>
   (\<exists>ev. push_finalizer (user_func 1) 0x5000 nullptr ex_zone8 = (Inl bad_alloc, ex_zone8, ev) \<and>
         finalizer_calls ev = []) \<and>
   (\<exists>z' ev. allocate ex_T16 0x2000 nullptr False ex_zone8 = Some (Inl bad_alloc, z', ev) \<and>
            filter is_construct ev = [] \<and>
            m_finalizer_array z' = m_finalizer_array ex_zone8 \<and>
            m_chunk_list z' =
              \<lparr>m_free = 16, m_ptr = 0x2008,
               m_head = Chunk 0x2000 24 (Some (Chunk 0x1000 16 None))\<rparr>)"
proof -
  have cs: "m_chunk_size ex_zone8 = 8"
    by (simp add: ex_zone8_def)
  have as: "align_size 16 = 16"
    by (simp add: align_size_def MSGPACK_ZONE_ALIGN_def)
  have h1: "m_free (m_chunk_list ex_zone8) < 16 \<and>
      unat (16 :: size_t) \<le> unat (m_chunk_size ex_zone8) * 2 ^ 1 \<and>
      unat (m_chunk_size ex_zone8) * 2 ^ 1 < 2 ^ 64"
    by (simp add: ex_zone8_def)
  have h3: "m_tail (m_finalizer_array ex_zone8) = m_end (m_finalizer_array ex_zone8)"
    by (simp add: ex_zone8_def finalizer_array_init_def)
  have h4: "aligned (sizeof ex_T16) \<and>
      m_tail (m_finalizer_array ex_zone8) = m_end (m_finalizer_array ex_zone8) \<and>
      (\<not> m_free (m_chunk_list ex_zone8) < sizeof ex_T16 \<or>
         ((0x2000 :: ptr) \<noteq> nullptr \<and>
          grow_loop (m_chunk_size ex_zone8) (sizeof ex_T16) = Some 16))"
    by (simp add: ex_T16_def ex_zone8_def aligned_def MSGPACK_ZONE_ALIGN_def nullptr_def
        finalizer_array_init_def grow_loop_8_16)
  have less: "m_free (m_chunk_list ex_zone8) < sizeof ex_T16"
    by (simp add: ex_T16_def ex_zone8_def)
  have v: "sizeof_chunk + 16 = (24 :: size_t)" "0x2000 + sizeof_chunk = (0x2008 :: ptr)"
    "m_head (m_chunk_list ex_zone8) = Chunk 0x1000 16 None" "sizeof_chunk = 8"
    by (simp_all add: sizeof_chunk_def ex_zone8_def)
  note t = out_of_memory_leaves_state
             [where z = ex_zone8 and n = 16 and k = 1 and func = "user_func 1"
                and data = "0x5000" and T = ex_T16 and c = "0x2000" and sz = 16 and th = False]
  have h2: "m_free (m_chunk_list ex_zone8) < align_size 16 \<and>
      unat (align_size 16) \<le> unat (m_chunk_size ex_zone8) * 2 ^ 1 \<and>
      unat (m_chunk_size ex_zone8) * 2 ^ 1 < 2 ^ 64"
    using h1 by (simp only: as)
  from t h1 have "\<exists>j\<le>1. allocate_no_align 16 nullptr ex_zone8 =
            Some (nullptr, ex_zone8,
                  [Malloc (sizeof_chunk + m_chunk_size ex_zone8 * 2 ^ j) nullptr])"
    by blast
  then have a: "\<exists>j\<le>1. allocate_no_align 16 nullptr ex_zone8 =
            Some (nullptr, ex_zone8, [Malloc (8 + 8 * 2 ^ j) nullptr])"
    by (simp only: cs v(4))
  from t h2 have "\<exists>j\<le>1. allocate_align 16 nullptr ex_zone8 =
            Some (nullptr, ex_zone8,
                  [Malloc (sizeof_chunk + m_chunk_size ex_zone8 * 2 ^ j) nullptr])"
    by blast
  then have b: "\<exists>j\<le>1. allocate_align 16 nullptr ex_zone8 =
            Some (nullptr, ex_zone8, [Malloc (8 + 8 * 2 ^ j) nullptr])"
    by (simp only: cs v(4))
  from t h3 have p: "\<exists>ev. push_finalizer (user_func 1) 0x5000 nullptr ex_zone8 =
            (Inl bad_alloc, ex_zone8, ev) \<and> finalizer_calls ev = []"
    by blast
  from t h4 have "\<exists>z' ev.
         allocate ex_T16 0x2000 nullptr False ex_zone8 = Some (Inl bad_alloc, z', ev) \<and>
         filter is_construct ev = [] \<and> finalizer_calls ev = [] \<and>
         m_finalizer_array z' = m_finalizer_array ex_zone8 \<and>
         m_chunk_size z' = m_chunk_size ex_zone8 \<and>
         (if m_free (m_chunk_list ex_zone8) < sizeof ex_T16
          then m_chunk_list z' =
                 \<lparr>m_free = 16, m_ptr = 0x2000 + sizeof_chunk,
                  m_head = Chunk 0x2000 (sizeof_chunk + 16)
                             (Some (m_head (m_chunk_list ex_zone8)))\<rparr>
          else z' = ex_zone8)"
    by blast
  then have d: "\<exists>z' ev. allocate ex_T16 0x2000 nullptr False ex_zone8 =
            Some (Inl bad_alloc, z', ev) \<and>
            filter is_construct ev = [] \<and>
            m_finalizer_array z' = m_finalizer_array ex_zone8 \<and>
            m_chunk_list z' =
              \<lparr>m_free = 16, m_ptr = 0x2008,
               m_head = Chunk 0x2000 24 (Some (Chunk 0x1000 16 None))\<rparr>"
    using less by (simp only: v(1-3) if_True) blast
  have e1: "allocate_no_align 16 nullptr ex_zone8 = Some (nullptr, ex_zone8, [Malloc 24 nullptr])"
    by (simp add: eval_defs grow_loop_8_16 ex_zone8_def)
  have e2: "allocate_align 16 nullptr ex_zone8 = Some (nullptr, ex_zone8, [Malloc 24 nullptr])"
    by (simp add: eval_defs grow_loop_8_16 ex_zone8_def)
  from a b e1 e2 p d show ?thesis by blast
qed

text \<open>
  The claim C3 as first stated fails where the typed allocation took a new chunk before the
  registry failed to grow: \<open>zone(8)\<close>, \<open>allocate<T>\<close> with \<open>sizeof(T) = 16\<close>, \<open>::malloc\<close>
  supplies the chunk, \<open>::realloc\<close> returns \<open>nullptr\<close>. The call throws \<open>bad_alloc\<close> and the
  chunk list is not what it was: the new chunk is its head.
\<close>
theorem registry_failure_after_growth_counterexample:
  "allocate ex_T16 0x2000 nullptr False ex_zone8 =
     Some (Inl bad_alloc, ex_zone8_grown, [Malloc 24 0x2000, Realloc 0 64 0]) \<and>
   m_head (m_chunk_list ex_zone8) = Chunk 0x1000 16 None \<and>
   m_head (m_chunk_list ex_zone8_grown) = Chunk 0x2000 24 (Some (Chunk 0x1000 16 None)) \<and>
   m_chunk_list ex_zone8_grown \<noteq> m_chunk_list ex_zone8"
  by (simp add: eval_defs grow_loop_8_16 ex_T16_def ex_zone8_def ex_zone8_grown_def)




text \<open>
  C5. The claim says that growth always ends with a new chunk of at least the requested
  size. The loop of \<open>allocate_expand\<close> does not end when the chunk size is 0: on \<open>zone(0)\<close>,
  \<open>allocate_no_align(1)\<close> and \<open>allocate_align(1)\<close> never return, whatever the allocator would
  supply. (Lemma \<open>allocate_no_align_new_head\<close> above is the claim where no doubling wraps
  and the allocator supplies the block.)
\<close>
theorem growth_with_chunk_size_zero_never_returns:
  "m_chunk_size ex_zone0 = 0 \<and> m_free (m_chunk_list ex_zone0) = 0 \<and>
   allocate_no_align 1 c ex_zone0 = None \<and> allocate_align 1 c ex_zone0 = None"
proof -
  have z: "m_chunk_size ex_zone0 = 0" and f: "m_free (m_chunk_list ex_zone0) = 0"
    by (simp_all add: ex_zone0_def)
  have a: "align_size 1 = 4"
    by (simp add: align_size_def MSGPACK_ZONE_ALIGN_def)
  have "allocate_no_align 1 c ex_zone0 = None"
    by (rule allocate_no_align_diverges) (simp_all add: z f)
  moreover have "allocate_no_align 4 c ex_zone0 = None"
    by (rule allocate_no_align_diverges) (simp_all add: z f)
  ultimately show ?thesis
    by (simp add: z f a allocate_align_def)
qed

text \<open>
  C6. \<open>clear()\<close> frees every chunk but the last of the list (the one without \<open>m_next\<close>), in
  list order, and makes no allocation; the chunk it keeps is the head, alone; \<open>m_ptr\<close> is the
  start of its storage and \<open>m_free\<close> the configured chunk size. Then every
  \<open>allocate_no_align(n)\<close> with \<open>n\<close> up to the chunk size is served from the start of that
  chunk, without an allocator call. An arena whose invariants hold keeps them.
\<close>
theorem clear_keeps_terminal_chunk:
  assumes cl: "clear z = (z', ev)"
  shows "filter is_free ev =
           map (\<lambda>x. Free (c_addr x)) (butlast (chunks (m_head (m_chunk_list z)))) \<and>
         filter is_malloc ev = [] \<and>
         m_next (last (chunks (m_head (m_chunk_list z)))) = None \<and>
         m_head (m_chunk_list z') =
           Chunk (c_addr (last (chunks (m_head (m_chunk_list z)))))
                 (c_bytes (last (chunks (m_head (m_chunk_list z))))) None \<and>
         m_ptr (m_chunk_list z') =
           c_addr (last (chunks (m_head (m_chunk_list z)))) + sizeof_chunk \<and>
         m_free (m_chunk_list z') = m_chunk_size z \<and>
         m_chunk_size z' = m_chunk_size z \<and>
         (\<forall>n c. n \<le> m_chunk_size z \<longrightarrow>
            allocate_no_align n c z' =
              Some (c_addr (last (chunks (m_head (m_chunk_list z)))) + sizeof_chunk,
                    z'\<lparr>m_chunk_list := (m_chunk_list z')
                         \<lparr>m_free := m_chunk_size z - n,
                          m_ptr := c_addr (last (chunks (m_head (m_chunk_list z)))) +
                                   sizeof_chunk + n\<rparr>\<rparr>,
                    [])) \<and>
         (zone_ok z \<longrightarrow> zone_ok z')"
proof -
  let ?t = "last (chunks (m_head (m_chunk_list z)))"
  from cl have z': "z' = z\<lparr>m_finalizer_array := (m_finalizer_array z)\<lparr>m_tail := 0\<rparr>,
        m_chunk_list := \<lparr>m_free = m_chunk_size z, m_ptr = c_addr ?t + sizeof_chunk,
                          m_head = Chunk (c_addr ?t) (c_bytes ?t) None\<rparr>\<rparr>"
    and ev: "ev = call (m_finalizer_array z) @
                  map (\<lambda>x. Free (c_addr x)) (butlast (chunks (m_head (m_chunk_list z))))"
    by (auto simp: clear_def finalizer_array_clear_def chunk_list_clear_def free_but_last_chunks)
  have fr: "filter is_free ev =
      map (\<lambda>x. Free (c_addr x)) (butlast (chunks (m_head (m_chunk_list z))))"
    by (simp add: ev call_def call_loop_no_free filter_free_map)
  have ml: "filter is_malloc ev = []"
    by (simp add: ev call_def call_loop_no_malloc filter_malloc_map)
  have al: "\<forall>n c. n \<le> m_chunk_size z \<longrightarrow>
            allocate_no_align n c z' =
              Some (c_addr ?t + sizeof_chunk,
                    z'\<lparr>m_chunk_list := (m_chunk_list z')
                         \<lparr>m_free := m_chunk_size z - n,
                          m_ptr := c_addr ?t + sizeof_chunk + n\<rparr>\<rparr>,
                    [])"
    by (simp add: z' allocate_no_align_def Let_def not_less [symmetric])
  have inv: "zone_ok z \<longrightarrow> zone_ok z'"
    using clear_ok [of z] cl by simp
  have rest: "m_next ?t = None \<and>
      m_head (m_chunk_list z') = Chunk (c_addr ?t) (c_bytes ?t) None \<and>
      m_ptr (m_chunk_list z') = c_addr ?t + sizeof_chunk \<and>
      m_free (m_chunk_list z') = m_chunk_size z \<and> m_chunk_size z' = m_chunk_size z"
    using last_chunks_terminal [of "m_head (m_chunk_list z)"] by (simp add: z')
  from fr ml rest al inv show ?thesis by blast
qed

theorem clear_keeps_terminal_chunk_witness:
  "clear ex_zone64_two = (ex_zone64, [Free 0x2000]) \<and>
   allocate_no_align 60 nullptr ex_zone64 =
     Some (0x1008, ex_zone64\<lparr>m_chunk_list := \<lparr>m_free = 4, m_ptr = 0x1044,
                                                m_head = Chunk 0x1000 72 None\<rparr>\<rparr>, [])"
proof -
  have cl: "clear ex_zone64_two = (ex_zone64, [Free 0x2000])"
    by (simp add: eval_defs ex_zone64_two_def ex_zone64_def)
  have le: "(60 :: size_t) \<le> m_chunk_size ex_zone64_two"
    by (simp add: ex_zone64_two_def)
  from clear_keeps_terminal_chunk [OF cl] le
  have "allocate_no_align 60 nullptr ex_zone64 =
      Some (c_addr (last (chunks (m_head (m_chunk_list ex_zone64_two)))) + sizeof_chunk,
            ex_zone64\<lparr>m_chunk_list := (m_chunk_list ex_zone64)
                 \<lparr>m_free := m_chunk_size ex_zone64_two - 60,
                  m_ptr := c_addr (last (chunks (m_head (m_chunk_list ex_zone64_two)))) +
                           sizeof_chunk + 60\<rparr>\<rparr>,
            [])"
    by blast
  then have a: "allocate_no_align 60 nullptr ex_zone64 =
     Some (0x1008, ex_zone64\<lparr>m_chunk_list := \<lparr>m_free = 4, m_ptr = 0x1044,
                                                m_head = Chunk 0x1000 72 None\<rparr>\<rparr>, [])"
    by (simp add: ex_zone64_two_def ex_zone64_def sizeof_chunk_def)
  from cl a show ?thesis by (rule conjI)
qed

text \<open>
  C7. The claim says that \<open>swap\<close> invokes no finalizer. \<open>zone::swap\<close> is
  \<open>std::swap\<close> on this arena and \<open>o\<close>, whose temporary copy of this arena is destroyed when
  it returns: on an arena with one registered object and a new arena, \<open>swap\<close> exchanges the
  two states, and calls the finalizer of the object, frees the registry block and frees the
  chunk that the other arena now refers to.
\<close>
theorem swap_runs_finalizers_of_this:
  "swap ex_zA ex_zone8 =
     (ex_zone8, ex_zA, [Invoke (object_destructor 1) 0x1008, Free 0x3000, Free 0x1000]) \<and>
   registered (m_finalizer_array ex_zA) =
     [Some \<lparr>m_func = object_destructor 1, m_data = 0x1008\<rparr>] \<and>
   m_array (m_finalizer_array ex_zA) = 0x3000 \<and>
   m_head (m_chunk_list ex_zA) = Chunk 0x1000 72 None"
  by (simp add: eval_defs registered_def ex_zA_def ex_zone8_def)

text \<open>
  C8, as amended. \<open>create(chunk_size)\<close> asks the allocator for
  \<open>sizeof(zone) + chunk_size\<close> bytes; when that fails it returns \<open>nullptr\<close> and asks for
  nothing else; otherwise it constructs the arena in that block, and the constructor asks the
  allocator a second time, for \<open>sizeof(chunk) + chunk_size\<close> bytes, which become the first
  chunk; when that block is supplied, \<open>create\<close> returns the handle. \<open>destroy\<close> calls the
  remaining finalizers, newest first, frees the registry block, frees every chunk, and last
  frees the block of the arena.
\<close>
theorem create_allocates_arena_then_chunk:
  "create chunk_size nullptr c = (Inr None, [Malloc (sizeof_zone + chunk_size) nullptr]) \<and>
   (zp \<noteq> nullptr \<and> c \<noteq> nullptr \<longrightarrow>
      create chunk_size zp c =
        (Inr (Some (zp, \<lparr>m_chunk_size = chunk_size,
                         m_chunk_list = \<lparr>m_free = chunk_size, m_ptr = c + sizeof_chunk,
                                         m_head = Chunk c (sizeof_chunk + chunk_size) None\<rparr>,
                         m_finalizer_array = finalizer_array_init\<rparr>)),
         [Malloc (sizeof_zone + chunk_size) zp, Malloc (sizeof_chunk + chunk_size) c])) \<and>
   destroy (zp, z) =
     call (m_finalizer_array z) @ [Free (m_array (m_finalizer_array z))] @
     map (\<lambda>x. Free (c_addr x)) (chunks (m_head (m_chunk_list z))) @ [Free zp]"
  by (simp add: create_def zone_ctor_def chunk_list_ctor_def Let_def destroy_def zone_dtor_def
      finalizer_array_dtor_def chunk_list_dtor_def free_all_chunks)

theorem create_allocates_arena_then_chunk_witness:
  "create 64 nullptr 0x1000 = (Inr None, [Malloc 120 nullptr]) \<and>
   create 64 0x800 0x1000 =
     (Inr (Some (0x800, ex_zone64)), [Malloc 120 0x800, Malloc 72 0x1000]) \<and>
   destroy (0x800, ex_zC) =
     [Invoke (object_destructor 3) 0x1020, Invoke (object_destructor 2) 0x1010,
      Invoke (object_destructor 1) 0x1008, Free 0x3000, Free 0x1000, Free 0x800]"
proof -
  have n: "(0x800 :: ptr) \<noteq> nullptr \<and> (0x1000 :: ptr) \<noteq> nullptr"
    by (simp add: nullptr_def)
  have d: "call (m_finalizer_array ex_zC) =
      [Invoke (object_destructor 3) 0x1020, Invoke (object_destructor 2) 0x1010,
       Invoke (object_destructor 1) 0x1008]"
    "m_array (m_finalizer_array ex_zC) = 0x3000"
    "chunks (m_head (m_chunk_list ex_zC)) = [Chunk 0x1000 72 None]"
    by (simp_all add: eval_defs ex_zC_def)
  from create_allocates_arena_then_chunk [of 64 "0x1000" "0x800" ex_zC] n
  show ?thesis
    by (simp add: d ex_zone64_def sizeof_zone_def sizeof_chunk_def)
qed

text \<open>
  The claim C8 as first stated fails on every successful \<open>create\<close>: \<open>create(64)\<close> makes two
  system allocations, and the first chunk (at \<open>0x1000\<close>) is the second one, not a part of the
  block of the arena (at \<open>0x800\<close>).
\<close>
theorem create_two_allocations_counterexample:
  "filter is_malloc (snd (create 64 0x800 0x1000)) = [Malloc 120 0x800, Malloc 72 0x1000] \<and>
   length (filter is_malloc (snd (create 64 0x800 0x1000))) = 2 \<and>
   fst (create 64 0x800 0x1000) = Inr (Some (0x800, ex_zone64)) \<and>
   m_head (m_chunk_list ex_zone64) = Chunk 0x1000 72 None"
  by (simp add: eval_defs ex_zone64_def)

text \<open>
  C9. The claim says that every operation, failure paths included, keeps \<open>m_ptr\<close> inside the
  storage of the head chunk. \<open>allocate<T>\<close> does not test what \<open>allocate_align\<close> returns: on
  \<open>zone(8)\<close> (whose invariants hold), with \<open>sizeof(T) = 16\<close>, when \<open>::malloc\<close> returns
  \<open>nullptr\<close> for the new chunk and \<open>::realloc\<close> returns \<open>nullptr\<close> for the registry, the
  handler undoes a reservation that was never made: \<open>m_ptr\<close> ends 16 bytes before the storage
  of the head chunk and \<open>m_free\<close> is 24 for a chunk of 8 bytes. (Where the storage was
  reserved the invariants are kept: lemmas \<open>zone_ctor_ok\<close>, \<open>allocate_no_align_ok\<close>,
  \<open>allocate_align_ok\<close>, \<open>push_finalizer_ok\<close>, \<open>clear_ok\<close> and \<open>allocate_ok\<close> above.)
\<close>
theorem failed_allocate_breaks_chunk_invariant:
  "chunk_list_ok (m_chunk_list ex_zone8) \<and> finalizer_array_ok (m_finalizer_array ex_zone8) \<and>
   allocate ex_T16 nullptr nullptr False ex_zone8 =
     Some (Inl bad_alloc, ex_zone8_broken, [Malloc 24 0, Realloc 0 64 0]) \<and>
   m_head (m_chunk_list ex_zone8_broken) = Chunk 0x1000 16 None \<and>
   m_ptr (m_chunk_list ex_zone8_broken) = 0xFF8 \<and>
   m_free (m_chunk_list ex_zone8_broken) = 24 \<and>
   \<not> chunk_list_ok (m_chunk_list ex_zone8_broken)"
  by (simp add: eval_defs grow_loop_8_16 chunk_list_ok_def finalizer_array_ok_def registered_def
      ex_T16_def ex_zone8_def ex_zone8_broken_def)

text \<open>
  C10. \<open>push_finalizer(unique_ptr<T> obj)\<close> on an arena with a well-formed registry, for an
  \<open>obj\<close> that owns an object. When it fails, the failure is the \<open>bad_alloc\<close> of a registry that
  could not grow, the arena is exactly as before (so it will never destroy the object), and
  the object is deleted once, by the parameter that still owns it. When it succeeds, nothing is
  deleted and the arena has registered the destructor of the object as its newest entry. No
  finalizer is called either way.
\<close>
theorem push_finalizer_unique_ptr_ownership:
  assumes run: "push_finalizer_unique_ptr T obj r z = (res, z', ev)"
    and obj: "obj \<noteq> nullptr"
    and ok: "finalizer_array_ok (m_finalizer_array z)"
  shows "(case res of
            Inl e \<Rightarrow> e = bad_alloc \<and> r = nullptr \<and> z' = z \<and>
                     filter is_delete ev = [Delete (type_id T) obj]
          | Inr u \<Rightarrow> filter is_delete ev = [] \<and>
                     finalizer_array_ok (m_finalizer_array z') \<and>
                     registered (m_finalizer_array z') =
                       registered (m_finalizer_array z) @
                         [Some \<lparr>m_func = object_destructor (type_id T), m_data = obj\<rparr>]) \<and>
         finalizer_calls ev = []"
proof -
  obtain pr fa ev1 where
    p: "push (object_destructor (type_id T)) obj r (m_finalizer_array z) = (pr, fa, ev1)"
    by (cases "push (object_destructor (type_id T)) obj r (m_finalizer_array z)") auto
  have nd: "filter is_delete ev1 = []"
    using push_events [OF p] by simp
  show ?thesis
  proof (cases pr)
    case (Inl e)
    with p have
      pf: "push (object_destructor (type_id T)) obj r (m_finalizer_array z) = (Inl e, fa, ev1)"
      by simp
    note f = push_fail [OF pf]
    from run p Inl obj have "res = Inl e" "z' = z\<lparr>m_finalizer_array := fa\<rparr>"
      "ev = ev1 @ [Delete (type_id T) obj]"
      by (auto simp: push_finalizer_unique_ptr_def)
    with f nd show ?thesis by (simp add: finalizer_calls_def)
  next
    case (Inr u)
    with p have
      ps: "push (object_destructor (type_id T)) obj r (m_finalizer_array z) = (Inr u, fa, ev1)"
      by simp
    note s = push_ok [OF ok ps]
    from run p Inr have "res = Inr ()" "z' = z\<lparr>m_finalizer_array := fa\<rparr>" "ev = ev1"
      by (auto simp: push_finalizer_unique_ptr_def)
    with s nd show ?thesis by simp
  qed
qed

theorem push_finalizer_unique_ptr_ownership_witness:
  "push_finalizer_unique_ptr ex_TA 0x5000 nullptr ex_zone64 =
     (Inl bad_alloc, ex_zone64, [Realloc 0 64 0, Delete 1 0x5000]) \<and>
   filter is_delete [Realloc 0 64 0, Delete 1 0x5000] = [Delete 1 0x5000] \<and>
   finalizer_calls [Realloc 0 64 0, Delete 1 0x5000] = []"
proof -
  have run: "push_finalizer_unique_ptr ex_TA 0x5000 nullptr ex_zone64 =
     (Inl bad_alloc, ex_zone64, [Realloc 0 64 0, Delete 1 0x5000])"
    by (simp add: eval_defs ex_TA_def ex_zone64_def)
  have obj: "(0x5000 :: ptr) \<noteq> nullptr"
    by (simp add: nullptr_def)
  from push_finalizer_unique_ptr_ownership [OF run obj ex_zone64_ok] run
  show ?thesis by (simp add: ex_TA_def)
qed

end
